theory Spec2Isabelle
  imports Complex_Main "HOL-Library.Word"
begin

section \<open>Python values of the metadata document\<close>

text \<open>
  \<^verbatim>\<open>json.loads\<close> turns the metadata document into Python values: \<^verbatim>\<open>None\<close>, \<^verbatim>\<open>bool\<close>,
  \<^verbatim>\<open>int\<close>, \<^verbatim>\<open>float\<close>, \<^verbatim>\<open>str\<close>, \<^verbatim>\<open>list\<close> and \<^verbatim>\<open>dict\<close> with \<^verbatim>\<open>str\<close> keys. A dict is
  an association list in document order (a Python dict has distinct keys and iterates
  in insertion order). A \<^verbatim>\<open>str\<close> is a \<open>string\<close>; the string methods below
  (\<^verbatim>\<open>upper\<close>, \<^verbatim>\<open>strip\<close>, \<^verbatim>\<open>encode\<close>) are the ones of ASCII text, where one character
  is one byte of the UTF-8 encoding. Floats are carried as reals: the service never
  computes with them, it only tests them for zero.
\<close>

datatype json =
    JNull
  | JBool bool
  | JInt int
  | JFloat real
  | JStr string
  | JList "json list"
  | JDict "(string \<times> json) list"

text \<open>The exceptions (subclasses of \<^verbatim>\<open>Exception\<close>) that the service meets. A
  \<^verbatim>\<open>RequestException\<close> carries the status code of its \<^verbatim>\<open>response\<close> attribute, or
  nothing when \<^verbatim>\<open>response\<close> is \<^verbatim>\<open>None\<close> (a connection error, a timeout).\<close>

datatype error =
    IndexError
  | KeyError
  | TypeError
  | AttributeError
  | ValueError
  | RequestException "int option"
  | OtherException

text \<open>Truth value testing, as \<^verbatim>\<open>if not x\<close> does it.\<close>

fun truthy :: "json \<Rightarrow> bool" where
  "truthy JNull = False"
| "truthy (JBool b) = b"
| "truthy (JInt i) = (i \<noteq> 0)"
| "truthy (JFloat r) = (r \<noteq> 0)"
| "truthy (JStr s) = (s \<noteq> [])"
| "truthy (JList xs) = (xs \<noteq> [])"
| "truthy (JDict kvs) = (kvs \<noteq> [])"

text \<open>\<^verbatim>\<open>obj.get(key, default)\<close>: only a dict has the method.\<close>

fun py_get :: "json \<Rightarrow> string \<Rightarrow> json \<Rightarrow> error + json" where
  "py_get (JDict kvs) k d = Inr (case map_of kvs k of None \<Rightarrow> d | Some v \<Rightarrow> v)"
| "py_get _ k d = Inl AttributeError"

text \<open>\<^verbatim>\<open>for x in obj\<close>: a list yields its elements, a dict its keys, a string its
  characters; nothing else is iterable.\<close>

fun py_iter :: "json \<Rightarrow> error + json list" where
  "py_iter (JList xs) = Inr xs"
| "py_iter (JDict kvs) = Inr (map (\<lambda>kv. JStr (fst kv)) kvs)"
| "py_iter (JStr s) = Inr (map (\<lambda>c. JStr [c]) s)"
| "py_iter _ = Inl TypeError"

text \<open>Indexing of a sequence by an integer; a negative index counts from the end.\<close>

definition seq_index :: "'a list \<Rightarrow> int \<Rightarrow> error + 'a" where
  "seq_index xs i =
     (if 0 \<le> i \<and> i < int (length xs) then Inr (xs ! nat i)
      else if i < 0 \<and> - int (length xs) \<le> i then Inr (xs ! nat (int (length xs) + i))
      else Inl IndexError)"

text \<open>\<^verbatim>\<open>obj[key]\<close>. The keys of a parsed dict are strings, so any other hashable key
  is missing from it and a list or dict as key is unhashable. \<^verbatim>\<open>True\<close> and \<^verbatim>\<open>False\<close>
  index a sequence as 1 and 0.\<close>

fun py_getitem :: "json \<Rightarrow> json \<Rightarrow> error + json" where
  "py_getitem (JDict kvs) (JStr k) =
     (case map_of kvs k of None \<Rightarrow> Inl KeyError | Some v \<Rightarrow> Inr v)"
| "py_getitem (JDict kvs) (JList ys) = Inl TypeError"
| "py_getitem (JDict kvs) (JDict ys) = Inl TypeError"
| "py_getitem (JDict kvs) _ = Inl KeyError"
| "py_getitem (JList xs) (JInt i) = seq_index xs i"
| "py_getitem (JList xs) (JBool b) = seq_index xs (if b then 1 else 0)"
| "py_getitem (JList xs) _ = Inl TypeError"
| "py_getitem (JStr s) (JInt i) =
     (case seq_index s i of Inl e \<Rightarrow> Inl e | Inr c \<Rightarrow> Inr (JStr [c]))"
| "py_getitem (JStr s) (JBool b) =
     (case seq_index s (if b then 1 else 0) of Inl e \<Rightarrow> Inl e | Inr c \<Rightarrow> Inr (JStr [c]))"
| "py_getitem (JStr s) _ = Inl TypeError"
| "py_getitem _ _ = Inl TypeError"

text \<open>Decimal digits of an integer, as \<^verbatim>\<open>'%s' % i\<close> prints them.\<close>

fun str_nat :: "nat \<Rightarrow> string" where
  "str_nat n =
     (if n < 10 then [char_of (48 + n)]
      else str_nat (n div 10) @ [char_of (48 + n mod 10)])"

declare str_nat.simps [simp del]

definition str_int :: "int \<Rightarrow> string" where
  "str_int i = (if i < 0 then CHR ''-'' # str_nat (nat (- i)) else str_nat (nat i))"

text \<open>\<^verbatim>\<open>'%s' % t\<close> for a loop variable \<open>t\<close>. The printed form of a float, a list or a
  dict is not modelled: the loops below index with \<open>t\<close> before they print it, and
  indexing with such a key has raised by then (lemma \<open>getitem_key_kind\<close>).\<close>

fun py_str :: "json \<Rightarrow> string" where
  "py_str (JStr s) = s"
| "py_str (JInt i) = str_int i"
| "py_str (JBool b) = (if b then ''True'' else ''False'')"
| "py_str JNull = ''None''"
| "py_str _ = []"

text \<open>\<^verbatim>\<open>str.upper\<close> on ASCII text; a value that is no string has no such method.\<close>

definition upper_char :: "char \<Rightarrow> char" where
  "upper_char c =
     (if 97 \<le> (of_char c :: nat) \<and> (of_char c :: nat) \<le> 122
      then char_of ((of_char c :: nat) - 32) else c)"

fun py_upper :: "json \<Rightarrow> error + string" where
  "py_upper (JStr s) = Inr (map upper_char s)"
| "py_upper _ = Inl AttributeError"

section \<open>The network model\<close>

text \<open>The named tuples of \<^verbatim>\<open>cloudbaseinit.models.network\<close> that the service builds.
  A field holds whatever Python value the service puts there, so fields filled from
  the document are of type \<open>json\<close> (\<open>JNull\<close> is \<^verbatim>\<open>None\<close>). The fields \<^verbatim>\<open>id\<close>, \<^verbatim>\<open>name\<close>
  and \<^verbatim>\<open>type\<close> of a link are \<open>link_id\<close>, \<open>link_name\<close> and \<open>link_type\<close> here.\<close>

datatype link_type = LINK_TYPE_PHYSICAL | LINK_TYPE_BOND | LINK_TYPE_VLAN

record Link =
  link_id :: string
  link_name :: string
  link_type :: link_type
  enabled :: bool
  mac_address :: string
  mtu :: json
  bond :: json
  vlan_link :: json
  vlan_id :: json

record Route =
  network_cidr :: json
  gateway :: json

record Network =
  link :: string
  address_cidr :: json
  dns_nameservers :: json
  routes :: "Route list"

record NameServerService =
  addresses :: json
  search :: json

record NetworkDetailsV2 =
  links :: "Link list"
  networks :: "Network list"
  services :: "NameServerService list"

section \<open>Links\<close>

text \<open>The loop of \<^verbatim>\<open>_net_parse_links\<close>: \<open>ts\<close> is what is left to iterate, \<open>i\<close> the
  counter and \<open>acc\<close> the list \<^verbatim>\<open>links\<close>. The keyword arguments of \<^verbatim>\<open>Link(...)\<close> are
  evaluated in the order written.\<close>

fun links_loop :: "json \<Rightarrow> json list \<Rightarrow> int \<Rightarrow> Link list \<Rightarrow> error + Link list" where
  "links_loop interfaces_config [] i acc = Inr acc"
| "links_loop interfaces_config (t # ts) i acc =
     (case py_getitem interfaces_config t of Inl e \<Rightarrow> Inl e | Inr descriptors \<Rightarrow>
     (case py_getitem descriptors (JInt 0) of Inl e \<Rightarrow> Inl e | Inr nic \<Rightarrow>
     (case py_get nic ''mac'' JNull of Inl e \<Rightarrow> Inl e | Inr mac \<Rightarrow>
     (case py_upper mac of Inl e \<Rightarrow> Inl e | Inr mac_upper \<Rightarrow>
     (case py_get nic ''mtu'' (JInt 1500) of Inl e \<Rightarrow> Inl e | Inr nic_mtu \<Rightarrow>
        links_loop interfaces_config ts (i + 1)
          (acc @ [\<lparr>link_id = ''interface'' @ str_int (i + 1),
                   link_name = ''Network '' @ py_str t,
                   link_type = LINK_TYPE_PHYSICAL,
                   enabled = True,
                   mac_address = mac_upper,
                   mtu = nic_mtu,
                   bond = JNull,
                   vlan_link = JNull,
                   vlan_id = JNull\<rparr>]))))))"

text \<open>\<^verbatim>\<open>_net_parse_links\<close>; \<open>md\<close> is what \<^verbatim>\<open>self._get_meta_data()\<close> returns.\<close>

definition net_parse_links :: "json \<Rightarrow> error + Link list" where
  "net_parse_links md =
     (case py_get md ''interfaces'' JNull of Inl e \<Rightarrow> Inl e | Inr interfaces_config \<Rightarrow>
      if \<not> truthy interfaces_config then Inr []
      else (case py_iter interfaces_config of Inl e \<Rightarrow> Inl e | Inr ts \<Rightarrow>
        links_loop interfaces_config ts 0 []))"

section \<open>Subnets and name servers\<close>

text \<open>\<^verbatim>\<open>network_utils.ip_netmask_to_cidr\<close> is not among the sources. It is a parameter
  of the subnet derivation: a function of the subnet's address and netmask that returns
  the CIDR notation or raises.\<close>

type_synonym cidr_fn = "json \<Rightarrow> json \<Rightarrow> error + json"

text \<open>The loop over \<^verbatim>\<open>additional_routes\<close>, appending to \<^verbatim>\<open>routes\<close>.\<close>

fun routes_loop :: "json list \<Rightarrow> Route list \<Rightarrow> error + Route list" where
  "routes_loop [] acc = Inr acc"
| "routes_loop (r # rs) acc =
     (case py_get r ''destination'' JNull of Inl e \<Rightarrow> Inl e | Inr destination \<Rightarrow>
     (case py_get r ''gateway'' JNull of Inl e \<Rightarrow> Inl e | Inr gw \<Rightarrow>
        routes_loop rs (acc @ [\<lparr>network_cidr = destination, gateway = gw\<rparr>])))"

text \<open>The branch \<^verbatim>\<open>if nic_type == "public"\<close>: the values of \<^verbatim>\<open>routes\<close> and
  \<^verbatim>\<open>nameservers\<close> after it.\<close>

definition public_part :: "json \<Rightarrow> json \<Rightarrow> json \<Rightarrow> string \<Rightarrow> error + Route list \<times> json" where
  "public_part dns_config nic_type subnet default_gateway_cidr =
     (if nic_type = JStr ''public'' then
        (case py_get subnet ''gateway'' JNull of Inl e \<Rightarrow> Inl e | Inr gw \<Rightarrow>
        (case py_get dns_config ''nameservers'' (JList []) of Inl e \<Rightarrow> Inl e | Inr ns \<Rightarrow>
           Inr ([\<lparr>network_cidr = JStr default_gateway_cidr, gateway = gw\<rparr>], ns)))
      else Inr ([], JList []))"

text \<open>The inner loop \<^verbatim>\<open>for ip_version in ['ipv4', 'ipv6']\<close>.\<close>

fun versions_loop ::
  "cidr_fn \<Rightarrow> json \<Rightarrow> json \<Rightarrow> json \<Rightarrow> json \<Rightarrow> string list \<Rightarrow> Network list
     \<Rightarrow> error + Network list" where
  "versions_loop cidr dns_config additional_routes nic_type nic [] acc = Inr acc"
| "versions_loop cidr dns_config additional_routes nic_type nic (ip_version # vs) acc =
     (case py_get nic ip_version JNull of Inl e \<Rightarrow> Inl e | Inr subnet \<Rightarrow>
      if \<not> truthy subnet
      then versions_loop cidr dns_config additional_routes nic_type nic vs acc
      else
     (case public_part dns_config nic_type subnet
             (if ip_version = ''ipv4'' then ''0.0.0.0/0'' else ''::/0'') of
        Inl e \<Rightarrow> Inl e | Inr (routes0, nameservers) \<Rightarrow>
     (case py_iter additional_routes of Inl e \<Rightarrow> Inl e | Inr rs \<Rightarrow>
     (case routes_loop rs routes0 of Inl e \<Rightarrow> Inl e | Inr routes1 \<Rightarrow>
     (case py_get subnet ''address'' JNull of Inl e \<Rightarrow> Inl e | Inr address \<Rightarrow>
     (case py_get subnet ''netmask'' JNull of Inl e \<Rightarrow> Inl e | Inr netmask \<Rightarrow>
     (case cidr address netmask of Inl e \<Rightarrow> Inl e | Inr cidr_address \<Rightarrow>
        versions_loop cidr dns_config additional_routes nic_type nic vs
          (acc @ [\<lparr>link = ''Network '' @ py_str nic_type,
                   address_cidr = cidr_address,
                   dns_nameservers = nameservers,
                   routes = routes1\<rparr>]))))))))"

text \<open>The outer loop \<^verbatim>\<open>for nic_type in interfaces_config\<close>.\<close>

fun subnets_loop ::
  "cidr_fn \<Rightarrow> json \<Rightarrow> json \<Rightarrow> json \<Rightarrow> json list \<Rightarrow> int \<Rightarrow> Network list
     \<Rightarrow> error + Network list" where
  "subnets_loop cidr interfaces_config dns_config additional_routes [] i acc = Inr acc"
| "subnets_loop cidr interfaces_config dns_config additional_routes (nic_type # ts) i acc =
     (case py_getitem interfaces_config nic_type of Inl e \<Rightarrow> Inl e | Inr descriptors \<Rightarrow>
     (case py_getitem descriptors (JInt 0) of Inl e \<Rightarrow> Inl e | Inr nic \<Rightarrow>
     (case versions_loop cidr dns_config additional_routes nic_type nic
             [''ipv4'', ''ipv6''] acc of
        Inl e \<Rightarrow> Inl e
      | Inr acc' \<Rightarrow>
          subnets_loop cidr interfaces_config dns_config additional_routes ts (i + 1) acc')))"

text \<open>\<^verbatim>\<open>_net_parse_subnets\<close>.\<close>

definition net_parse_subnets :: "cidr_fn \<Rightarrow> json \<Rightarrow> error + Network list" where
  "net_parse_subnets cidr md =
     (case py_get md ''interfaces'' JNull of Inl e \<Rightarrow> Inl e | Inr interfaces_config \<Rightarrow>
      if \<not> truthy interfaces_config then Inr []
      else
     (case py_get md ''dns'' JNull of Inl e \<Rightarrow> Inl e | Inr dns_config \<Rightarrow>
      if \<not> truthy dns_config then Inr []
      else
     (case py_get md ''routes'' (JList []) of Inl e \<Rightarrow> Inl e | Inr additional_routes \<Rightarrow>
     (case py_iter interfaces_config of Inl e \<Rightarrow> Inl e | Inr ts \<Rightarrow>
        subnets_loop cidr interfaces_config dns_config additional_routes ts 0 []))))"

text \<open>\<^verbatim>\<open>_net_parse_services\<close>.\<close>

definition net_parse_services :: "json \<Rightarrow> error + NameServerService list" where
  "net_parse_services md =
     (case py_get md ''dns'' JNull of Inl e \<Rightarrow> Inl e | Inr dns_config \<Rightarrow>
      if \<not> truthy dns_config then Inr []
      else
     (case py_get dns_config ''nameservers'' (JList []) of Inl e \<Rightarrow> Inl e | Inr ns \<Rightarrow>
        Inr [\<lparr>addresses = ns, search = JNull\<rparr>]))"

text \<open>\<^verbatim>\<open>get_network_details_v2\<close>; \<open>None\<close> is the bare \<^verbatim>\<open>return\<close>.\<close>

definition get_network_details_v2 :: "cidr_fn \<Rightarrow> json \<Rightarrow> error + NetworkDetailsV2 option" where
  "get_network_details_v2 cidr md =
     (case py_get md ''interfaces'' JNull of Inl e \<Rightarrow> Inl e | Inr interfaces_config \<Rightarrow>
      if \<not> truthy interfaces_config then Inr None
      else
     (case net_parse_links md of Inl e \<Rightarrow> Inl e | Inr ls \<Rightarrow>
      if length ls = 0 then Inr None
      else
     (case net_parse_subnets cidr md of Inl e \<Rightarrow> Inl e | Inr ns \<Rightarrow>
     (case net_parse_services md of Inl e \<Rightarrow> Inl e | Inr ss \<Rightarrow>
        Inr (Some \<lparr>links = ls, networks = ns, services = ss\<rparr>)))))"

section \<open>User data\<close>

type_synonym bytes = "8 word list"

text \<open>\<^verbatim>\<open>str.encode()\<close>: the UTF-8 bytes of the text.\<close>

definition encode :: "string \<Rightarrow> bytes" where
  "encode s = map (\<lambda>c. of_nat (of_char c)) s"


section \<open>Loading the document and fetching the password\<close>

text \<open>The configuration options the service reads.\<close>

record conf =
  metadata_base_url :: "string option"
  retry_count :: int
  retry_count_interval :: int

text \<open>What the service does to the outside: how many times it asked for the cached
  document, how many times it requested the password, and the arguments of its calls
  of \<^verbatim>\<open>time.sleep\<close> in order.\<close>

record world =
  cache_fetches :: nat
  fetches :: nat
  sleeps :: "int list"

text \<open>The collaborators that are not among the sources, as parameters:
  \<open>cache_data n\<close> is what \<^verbatim>\<open>self._get_cache_data(url, decode=True)\<close> does when it has been
  called \<open>n\<close> times before (it raises, or returns the decoded body or \<^verbatim>\<open>None\<close>);
  \<open>json_loads\<close> is \<^verbatim>\<open>json.loads\<close>;
  \<open>password_response n\<close> is what \<^verbatim>\<open>encoding.get_as_string(self._get_data(url))\<close> does
  when the password has been requested \<open>n\<close> times before.\<close>

record backend =
  cache_data :: "nat \<Rightarrow> error + string option"
  json_loads :: "string \<Rightarrow> error + json"
  password_response :: "nat \<Rightarrow> error + string option"

text \<open>\<^verbatim>\<open>_get_meta_data\<close>: an empty or missing body gives \<^verbatim>\<open>None\<close>.\<close>

definition get_meta_data :: "backend \<Rightarrow> world \<Rightarrow> (error + json) \<times> world" where
  "get_meta_data b w =
     (let w' = w\<lparr>cache_fetches := cache_fetches w + 1\<rparr> in
      case cache_data b (cache_fetches w) of
        Inl e \<Rightarrow> (Inl e, w')
      | Inr None \<Rightarrow> (Inr JNull, w')
      | Inr (Some body) \<Rightarrow> if body \<noteq> [] then (json_loads b body, w') else (Inr JNull, w'))"

text \<open>Modelled from the spec: the base class's \<^verbatim>\<open>load\<close>, which \<^verbatim>\<open>load\<close> calls first, is
  not among the sources. The spec gives \<^verbatim>\<open>load\<close> no fetch and no failure before the
  check of the base URL, so the call returns and leaves the world as it is.\<close>

definition base_load :: "world \<Rightarrow> (error + unit) \<times> world" where
  "base_load w = (Inr (), w)"

text \<open>\<^verbatim>\<open>load\<close>. The handler \<^verbatim>\<open>except Exception\<close> catches every error of the model.\<close>

definition load :: "conf \<Rightarrow> backend \<Rightarrow> world \<Rightarrow> (error + bool) \<times> world" where
  "load c b w =
     (case base_load w of
        (Inl e, w0) \<Rightarrow> (Inl e, w0)
      | (Inr u, w0) \<Rightarrow>
          if metadata_base_url c = None \<or> metadata_base_url c = Some []
          then (Inr False, w0)
          else (case get_meta_data b w0 of
                  (Inl ex, w1) \<Rightarrow> (Inr False, w1)
                | (Inr md, w1) \<Rightarrow> (Inr True, w1)))"

text \<open>\<^verbatim>\<open>time.sleep\<close> refuses a negative length.\<close>

definition py_sleep :: "int \<Rightarrow> world \<Rightarrow> (error + unit) \<times> world" where
  "py_sleep secs w =
     (if secs < 0 then (Inl ValueError, w) else (Inr (), w\<lparr>sleeps := sleeps w @ [secs]\<rparr>))"

text \<open>\<^verbatim>\<open>str.strip()\<close> on ASCII text: the whitespace characters are tab, line feed,
  vertical tab, form feed, carriage return, the four separators 28 to 31 and space.\<close>

definition is_space :: "char \<Rightarrow> bool" where
  "is_space c =
     ((9 \<le> (of_char c :: nat) \<and> (of_char c :: nat) \<le> 13) \<or>
      (28 \<le> (of_char c :: nat) \<and> (of_char c :: nat) \<le> 32))"

definition strip :: "string \<Rightarrow> string" where
  "strip s = rev (dropWhile is_space (rev (dropWhile is_space s)))"

text \<open>The body of the \<^verbatim>\<open>try\<close> in \<^verbatim>\<open>get_admin_password\<close>: \<^verbatim>\<open>None\<close> has no \<^verbatim>\<open>strip\<close>.\<close>

definition try_password :: "backend \<Rightarrow> world \<Rightarrow> (error + string) \<times> world" where
  "try_password b w =
     (let w' = w\<lparr>fetches := fetches w + 1\<rparr> in
      case password_response b (fetches w) of
        Inl e \<Rightarrow> (Inl e, w')
      | Inr None \<Rightarrow> (Inl AttributeError, w')
      | Inr (Some body) \<Rightarrow> (Inr (strip body), w'))"

text \<open>\<^verbatim>\<open>not password\<close> for \<^verbatim>\<open>None\<close> or a string.\<close>

definition no_password :: "string option \<Rightarrow> bool" where
  "no_password password = (password = None \<or> password = Some [])"

text \<open>The loop \<^verbatim>\<open>for _ in range(CONF.retry_count)\<close>, with the iterations that are left
  as the recursion argument. The first handler reads \<^verbatim>\<open>ex.response.status_code\<close>,
  which raises inside the handler when the response is \<^verbatim>\<open>None\<close>; it has no
  \<^verbatim>\<open>continue\<close>, so it goes on to the test of \<^verbatim>\<open>password\<close>.\<close>

fun password_loop ::
  "conf \<Rightarrow> backend \<Rightarrow> nat \<Rightarrow> string option \<Rightarrow> world \<Rightarrow> (error + string option) \<times> world" where
  "password_loop c b 0 password w = (Inr password, w)"
| "password_loop c b (Suc n) password w =
     (case try_password b w of
        (Inr stripped, w1) \<Rightarrow>
          if no_password (Some stripped) then password_loop c b n (Some stripped) w1
          else (Inr (Some stripped), w1)
      | (Inl (RequestException response), w1) \<Rightarrow>
          (case response of
             None \<Rightarrow> (Inl AttributeError, w1)
           | Some status_code \<Rightarrow>
               (case py_sleep (retry_count_interval c) w1 of
                  (Inl e, w2) \<Rightarrow> (Inl e, w2)
                | (Inr u, w2) \<Rightarrow>
                    if no_password password then password_loop c b n password w2
                    else (Inr password, w2)))
      | (Inl ex, w1) \<Rightarrow>
          (case py_sleep (retry_count_interval c) w1 of
             (Inl e, w2) \<Rightarrow> (Inl e, w2)
           | (Inr u, w2) \<Rightarrow> password_loop c b n password w2))"

text \<open>\<^verbatim>\<open>get_admin_password\<close>: \<^verbatim>\<open>range\<close> of a count below one is empty.\<close>

definition get_admin_password ::
  "conf \<Rightarrow> backend \<Rightarrow> world \<Rightarrow> (error + string option) \<times> world" where
  "get_admin_password c b w = password_loop c b (nat (retry_count c)) None w"

section \<open>Shapes of documents\<close>

text \<open>The member \<open>k\<close> of an object, or \<open>d\<close> when the value is no object or has no such
  member.\<close>

fun field :: "json \<Rightarrow> string \<Rightarrow> json \<Rightarrow> json" where
  "field (JDict kvs) k d = (case map_of kvs k of None \<Rightarrow> d | Some v \<Rightarrow> v)"
| "field _ k d = d"

text \<open>An interface class maps to a non-empty sequence of descriptors whose first
  descriptor is an object with a string-valued \<^verbatim>\<open>mac\<close>.\<close>

fun has_mac :: "json \<Rightarrow> bool" where
  "has_mac (JList (JDict nic # rest)) =
     (case map_of nic ''mac'' of Some (JStr m) \<Rightarrow> True | _ \<Rightarrow> False)"
| "has_mac _ = False"

text \<open>The \<^verbatim>\<open>interfaces\<close> section is absent, empty, or a mapping each of whose classes
  satisfies \<open>has_mac\<close>.\<close>

definition interfaces_ok :: "(string \<times> json) list \<Rightarrow> bool" where
  "interfaces_ok md =
     (case map_of md ''interfaces'' of
        None \<Rightarrow> True
      | Some (JDict ifs) \<Rightarrow> list_all (\<lambda>kv. has_mac (snd kv)) ifs
      | Some v \<Rightarrow> \<not> truthy v)"

text \<open>A subnet block is absent or empty, or an object on whose address and netmask
  the CIDR helper returns.\<close>

fun subnet_ok :: "cidr_fn \<Rightarrow> json \<Rightarrow> bool" where
  "subnet_ok cidr (JDict sn) =
     (sn = [] \<or>
      (case cidr (field (JDict sn) ''address'' JNull) (field (JDict sn) ''netmask'' JNull) of
         Inl e \<Rightarrow> False | Inr c \<Rightarrow> True))"
| "subnet_ok cidr v = (\<not> truthy v)"

fun first_descriptor :: "json \<Rightarrow> json" where
  "first_descriptor (JList (nic # rest)) = nic"
| "first_descriptor _ = JNull"

definition subnets_ok :: "cidr_fn \<Rightarrow> json \<Rightarrow> bool" where
  "subnets_ok cidr descriptors =
     (subnet_ok cidr (field (first_descriptor descriptors) ''ipv4'' JNull) \<and>
      subnet_ok cidr (field (first_descriptor descriptors) ''ipv6'' JNull))"

fun is_dict :: "json \<Rightarrow> bool" where
  "is_dict (JDict kvs) = True"
| "is_dict _ = False"

text \<open>The sections that the subnet derivation reads besides the descriptors' first
  elements: \<^verbatim>\<open>dns\<close> is absent, empty or an object; \<^verbatim>\<open>routes\<close> is absent or a list of
  objects; the subnet blocks of every class are as \<open>subnets_ok\<close> says.\<close>

definition sections_ok :: "cidr_fn \<Rightarrow> (string \<times> json) list \<Rightarrow> bool" where
  "sections_ok cidr md =
     ((case map_of md ''dns'' of None \<Rightarrow> True | Some v \<Rightarrow> is_dict v \<or> \<not> truthy v) \<and>
      (case map_of md ''routes'' of
         None \<Rightarrow> True | Some (JList rs) \<Rightarrow> list_all is_dict rs | Some v \<Rightarrow> False) \<and>
      (case map_of md ''interfaces'' of
         Some (JDict ifs) \<Rightarrow> list_all (\<lambda>kv. subnets_ok cidr (snd kv)) ifs
       | _ \<Rightarrow> True))"

section \<open>What the subnet derivation is to produce\<close>

text \<open>The entries of the document-level \<^verbatim>\<open>routes\<close> list, in document order, each as a
  route with destination and gateway copied.\<close>

fun entries :: "json \<Rightarrow> json list" where
  "entries (JList rs) = rs"
| "entries _ = []"

definition document_routes :: "(string \<times> json) list \<Rightarrow> Route list" where
  "document_routes md =
     map (\<lambda>r. \<lparr>network_cidr = field r ''destination'' JNull,
               gateway = field r ''gateway'' JNull\<rparr>)
       (entries (field (JDict md) ''routes'' (JList [])))"

text \<open>Link name, routes and name servers of the network of class \<open>t\<close> for one IP
  family: the class \<^verbatim>\<open>public\<close> gets the default route of the family first, through the
  subnet's gateway, and the name servers of \<^verbatim>\<open>dns\<close>; every class gets the document's
  routes.\<close>

definition family_network ::
  "(string \<times> json) list \<Rightarrow> string \<Rightarrow> string \<Rightarrow> json \<Rightarrow> string \<times> Route list \<times> json" where
  "family_network md t ip_version subnet =
     (''Network '' @ t,
      (if t = ''public''
       then [\<lparr>network_cidr = JStr (if ip_version = ''ipv4'' then ''0.0.0.0/0'' else ''::/0''),
               gateway = field subnet ''gateway'' JNull\<rparr>]
       else []) @ document_routes md,
      (if t = ''public''
       then field (field (JDict md) ''dns'' JNull) ''nameservers'' (JList [])
       else JList []))"

text \<open>The networks of one class: one for each family, IPv4 first, whose subnet block
  is present and not empty in the first descriptor.\<close>

definition class_networks ::
  "(string \<times> json) list \<Rightarrow> string \<Rightarrow> json \<Rightarrow> (string \<times> Route list \<times> json) list" where
  "class_networks md t descriptors =
     concat (map (\<lambda>ip_version.
        if truthy (field (first_descriptor descriptors) ip_version JNull)
        then [family_network md t ip_version
                (field (first_descriptor descriptors) ip_version JNull)]
        else []) [''ipv4'', ''ipv6''])"

text \<open>What the claims about routes and name servers look at in a network.\<close>

definition summary :: "Network \<Rightarrow> string \<times> Route list \<times> json" where
  "summary n = (link n, routes n, dns_nameservers n)"

section \<open>The document of the repository's test\<close>

text \<open>\<^verbatim>\<open>METADATA\<close> of \<^verbatim>\<open>test_gportal.py\<close>, without its two public keys, which none of the
  functions modelled here reads.\<close>

definition METADATA :: "(string \<times> json) list" where
  "METADATA =
     [(''id'', JStr ''3f657fa2-7b72-466e-bad4-f83a31fbe5cd''),
      (''type'', JStr ''BARE_METAL''),
      (''fqdn'', JStr ''server1''),
      (''region'', JStr ''FRA01''),
      (''interfaces'', JDict
         [(''public'', JList
            [JDict [(''ipv4'', JDict [(''address'', JStr ''176.57.186.5''),
                                      (''netmask'', JStr ''255.255.255.0''),
                                      (''gateway'', JStr ''176.57.186.1'')]),
                    (''mac'', JStr ''40:9a:4c:8d:96:77''),
                    (''type'', JStr ''public'')]])]),
      (''dns'', JDict [(''nameservers'', JList [JStr ''8.8.8.8'', JStr ''1.1.1.1''])]),
      (''routes'', JList
         [JDict [(''destination'', JStr ''169.254.169.254/32''),
                 (''gateway'', JStr ''176.57.186.1''),
                 (''metric'', JInt 1000)]])]"

text \<open>The test's document without its \<^verbatim>\<open>dns\<close> section, with an empty one, and without
  its \<^verbatim>\<open>interfaces\<close> section.\<close>

definition no_dns :: "(string \<times> json) list" where
  "no_dns = filter (\<lambda>kv. fst kv \<noteq> ''dns'') METADATA"

definition empty_dns :: "(string \<times> json) list" where
  "empty_dns = map (\<lambda>kv. if fst kv = ''dns'' then (''dns'', JDict []) else kv) METADATA"

definition no_interfaces :: "(string \<times> json) list" where
  "no_interfaces = filter (\<lambda>kv. fst kv \<noteq> ''interfaces'') METADATA"

text \<open>A document with two classes, the second one not \<^verbatim>\<open>public\<close> and with an
  \<^verbatim>\<open>mtu\<close>.\<close>

definition TWO_CLASSES :: "(string \<times> json) list" where
  "TWO_CLASSES =
     [(''interfaces'', JDict
         [(''public'', JList
            [JDict [(''ipv4'', JDict [(''address'', JStr ''176.57.186.5''),
                                      (''netmask'', JStr ''255.255.255.0''),
                                      (''gateway'', JStr ''176.57.186.1'')]),
                    (''mac'', JStr ''40:9a:4c:8d:96:77'')]]),
          (''private'', JList
            [JDict [(''ipv4'', JDict [(''address'', JStr ''10.0.0.5''),
                                      (''netmask'', JStr ''255.255.0.0'')]),
                    (''mac'', JStr ''40:9a:4c:8d:96:78''),
                    (''mtu'', JInt 9000)]])]),
      (''dns'', JDict [(''nameservers'', JList [JStr ''8.8.8.8'', JStr ''1.1.1.1''])]),
      (''routes'', JList
         [JDict [(''destination'', JStr ''169.254.169.254/32''),
                 (''gateway'', JStr ''176.57.186.1''),
                 (''metric'', JInt 1000)]])]"

text \<open>The test's document with \<^verbatim>\<open>"routes": null\<close>; a document whose class has an
  empty list of descriptors; a document whose descriptor has no \<^verbatim>\<open>mac\<close>.\<close>

definition ROUTES_NULL :: "(string \<times> json) list" where
  "ROUTES_NULL = map (\<lambda>kv. if fst kv = ''routes'' then (''routes'', JNull) else kv) METADATA"

definition EMPTY_DESCRIPTORS :: "(string \<times> json) list" where
  "EMPTY_DESCRIPTORS =
     [(''interfaces'', JDict [(''public'', JList [])]),
      (''dns'', JDict [(''nameservers'', JList [JStr ''8.8.8.8'', JStr ''1.1.1.1''])])]"

definition NO_MAC :: "(string \<times> json) list" where
  "NO_MAC =
     [(''interfaces'', JDict
         [(''public'', JList
            [JDict [(''ipv4'', JDict [(''address'', JStr ''176.57.186.5''),
                                      (''netmask'', JStr ''255.255.255.0''),
                                      (''gateway'', JStr ''176.57.186.1'')])]])]),
      (''dns'', JDict [(''nameservers'', JList [JStr ''8.8.8.8'', JStr ''1.1.1.1''])])]"


text \<open>Modelled from the spec: \<^verbatim>\<open>ip_netmask_to_cidr\<close> is not among the sources. The spec
  has the CIDR as the address, a slash and the prefix length derived from the netmask;
  this is that function for a dotted-quad netmask, and it is used only to run the
  derivations on example documents.\<close>

fun split_dots :: "string \<Rightarrow> string \<Rightarrow> string list" where
  "split_dots cur [] = [rev cur]"
| "split_dots cur (c # cs) =
     (if c = CHR ''.'' then rev cur # split_dots [] cs else split_dots (c # cur) cs)"

definition octet_bits :: "string \<Rightarrow> nat option" where
  "octet_bits s =
     (if s = ''255'' then Some 8 else if s = ''254'' then Some 7
      else if s = ''252'' then Some 6 else if s = ''248'' then Some 5
      else if s = ''240'' then Some 4 else if s = ''224'' then Some 3
      else if s = ''192'' then Some 2 else if s = ''128'' then Some 1
      else if s = ''0'' then Some 0 else None)"

fun prefix_bits :: "string list \<Rightarrow> nat option" where
  "prefix_bits [] = Some 0"
| "prefix_bits (s # ss) =
     (case octet_bits s of
        None \<Rightarrow> None
      | Some n \<Rightarrow>
          if n = 8 then map_option (\<lambda>m. 8 + m) (prefix_bits ss)
          else if list_all (\<lambda>z. z = ''0'') ss then Some n else None)"

definition ip_netmask_to_cidr :: cidr_fn where
  "ip_netmask_to_cidr address netmask =
     (case (address, netmask) of
        (JStr a, JStr m) \<Rightarrow>
          (if length (split_dots [] m) = 4
           then (case prefix_bits (split_dots [] m) of
                   None \<Rightarrow> Inl ValueError
                 | Some n \<Rightarrow> Inr (JStr (a @ ''/'' @ str_nat n)))
           else Inl ValueError)
      | _ \<Rightarrow> Inl ValueError)"

text \<open>A configuration, backends and a world to run the fetches in. The backends:
  the password body is empty, then blank, then the password with white space around
  it; the password body is always empty; every request fails without a response (the
  connection is refused); every request fails with status 500; the document is no JSON.\<close>


definition example_conf :: conf where
  "example_conf =
     \<lparr>metadata_base_url = Some ''http://169.254.169.254'', retry_count = 3,
      retry_count_interval = 4\<rparr>"

definition world0 :: world where
  "world0 = \<lparr>cache_fetches = 0, fetches = 0, sleeps = []\<rparr>"

definition blank_then_secret :: backend where
  "blank_then_secret =
     \<lparr>cache_data = (\<lambda>n. Inr (Some ''{}'')),
      json_loads = (\<lambda>s. if s = ''{}'' then Inr (JDict []) else Inl ValueError),
      password_response =
        (\<lambda>n. if n = 0 then Inr (Some []) else if n = 1 then Inr (Some ''  '')
              else Inr (Some '' secret\<newline>''))\<rparr>"


definition connection_refused :: backend where
  "connection_refused =
     \<lparr>cache_data = (\<lambda>n. Inl (RequestException None)),
      json_loads = (\<lambda>s. Inl ValueError),
      password_response = (\<lambda>n. Inl (RequestException None))\<rparr>"

definition server_error :: backend where
  "server_error =
     \<lparr>cache_data = (\<lambda>n. Inl (RequestException (Some 500))),
      json_loads = (\<lambda>s. Inl ValueError),
      password_response = (\<lambda>n. Inl (RequestException (Some 500)))\<rparr>"

definition not_json :: backend where
  "not_json =
     \<lparr>cache_data = (\<lambda>n. Inr (Some ''<html>'')),
      json_loads = (\<lambda>s. if s = ''{}'' then Inr (JDict []) else Inl ValueError),
      password_response = (\<lambda>n. Inr (Some []))\<rparr>"

definition unconfigured :: conf where
  "unconfigured = \<lparr>metadata_base_url = None, retry_count = 3, retry_count_interval = 4\<rparr>"


section \<open>Properties of the Python operations and of the loops\<close>

lemma seq_index_0: "seq_index (x # xs) 0 = Inr x"
  by (simp add: seq_index_def)

lemma py_get_field: "py_get obj k d = Inr v \<Longrightarrow> v = field obj k d"
  by (cases obj) auto

lemma py_get_dict: "py_get obj k d = Inr v \<Longrightarrow> is_dict obj"
  by (cases obj) auto

lemma getitem_key_kind:
  "py_getitem obj t = Inr v \<Longrightarrow> (\<exists>s. t = JStr s) \<or> (\<exists>i. t = JInt i) \<or> (\<exists>b. t = JBool b)"
  by (cases "(obj, t)" rule: py_getitem.cases) auto

lemma has_macE:
  assumes "has_mac v"
  obtains nic rest mac where "v = JList (JDict nic # rest)" "map_of nic ''mac'' = Some (JStr mac)"
  using assms
  by (cases v rule: has_mac.cases) (auto split: option.splits json.splits)

lemma links_loop_step:
  assumes "map_of ifs t = Some (JList (JDict nic # rest))"
    and "map_of nic ''mac'' = Some (JStr mac)"
  shows "links_loop (JDict ifs) (JStr t # ts) i acc =
         links_loop (JDict ifs) ts (i + 1)
           (acc @ [\<lparr>link_id = ''interface'' @ str_int (i + 1), link_name = ''Network '' @ t,
                    link_type = LINK_TYPE_PHYSICAL, enabled = True,
                    mac_address = map upper_char mac, mtu = field (JDict nic) ''mtu'' (JInt 1500),
                    bond = JNull, vlan_link = JNull, vlan_id = JNull\<rparr>])"
  using assms by (simp add: seq_index_0)

lemma links_loop_names:
  "links_loop ic ts i acc = Inr ls \<Longrightarrow>
   map link_name ls = map link_name acc @ map (\<lambda>t. ''Network '' @ py_str t) ts"
proof (induction ts arbitrary: i acc)
  case Nil
  then show ?case by simp
next
  case (Cons t ts)
  from Cons.prems obtain l where
    "links_loop ic ts (i + 1) (acc @ [l]) = Inr ls" "link_name l = ''Network '' @ py_str t"
    by (auto split: sum.splits)
  with Cons.IH [of "i + 1" "acc @ [l]"] show ?case by simp
qed

lemma versions_loop_links:
  "versions_loop cidr dns ar t nic vs acc = Inr ns \<Longrightarrow>
   \<forall>n \<in> set ns. n \<in> set acc \<or> link n = ''Network '' @ py_str t"
proof (induction vs arbitrary: acc)
  case Nil
  then show ?case by auto
next
  case (Cons v vs)
  show ?case
  proof (cases "truthy (field nic v JNull)")
    case False
    with Cons.prems have "versions_loop cidr dns ar t nic vs acc = Inr ns"
      by (auto split: sum.splits if_splits dest: py_get_field)
    from Cons.IH [OF this] show ?thesis .
  next
    case True
    with Cons.prems obtain n where
      n: "versions_loop cidr dns ar t nic vs (acc @ [n]) = Inr ns"
         "link n = ''Network '' @ py_str t"
      by (auto split: sum.splits if_splits prod.splits dest: py_get_field)
    from Cons.IH [OF n(1)] n(2) show ?thesis by auto
  qed
qed

lemma subnets_loop_links:
  "subnets_loop cidr ic dns ar ts i acc = Inr ns \<Longrightarrow>
   \<forall>n \<in> set ns. n \<in> set acc \<or> (\<exists>t \<in> set ts. link n = ''Network '' @ py_str t)"
proof (induction ts arbitrary: i acc)
  case Nil
  then show ?case by auto
next
  case (Cons t ts)
  from Cons.prems obtain nic acc' where
    v: "versions_loop cidr dns ar t nic [''ipv4'', ''ipv6''] acc = Inr acc'"
    and s: "subnets_loop cidr ic dns ar ts (i + 1) acc' = Inr ns"
    by (auto simp del: versions_loop.simps split: sum.splits)
  show ?case
  proof
    fix n assume "n \<in> set ns"
    with Cons.IH [OF s] have "n \<in> set acc' \<or> (\<exists>t \<in> set ts. link n = ''Network '' @ py_str t)"
      by blast
    then show "n \<in> set acc \<or> (\<exists>t \<in> set (t # ts). link n = ''Network '' @ py_str t)"
    proof
      assume "n \<in> set acc'"
      with versions_loop_links [OF v] have "n \<in> set acc \<or> link n = ''Network '' @ py_str t"
        by blast
      then show ?thesis by auto
    next
      assume "\<exists>t \<in> set ts. link n = ''Network '' @ py_str t"
      then show ?thesis by auto
    qed
  qed
qed

lemma net_parse_subnets_loop:
  assumes "net_parse_subnets cidr md = Inr ns"
    and "py_get md ''interfaces'' JNull = Inr ic" and "truthy ic"
    and "py_iter ic = Inr ts"
  shows "ns = [] \<or> (\<exists>dns ar. truthy dns \<and> py_get md ''dns'' JNull = Inr dns \<and>
           py_get md ''routes'' (JList []) = Inr ar \<and>
           subnets_loop cidr ic dns ar ts 0 [] = Inr ns)"
proof (cases "py_get md ''dns'' JNull")
  case (Inl e)
  with assms show ?thesis by (simp add: net_parse_subnets_def)
next
  case dns: (Inr dns)
  show ?thesis
  proof (cases "truthy dns")
    case False
    with assms dns show ?thesis by (simp add: net_parse_subnets_def)
  next
    case True
    show ?thesis
    proof (cases "py_get md ''routes'' (JList [])")
      case (Inl e)
      with assms dns True show ?thesis by (simp add: net_parse_subnets_def)
    next
      case (Inr ar)
      with assms dns True show ?thesis by (simp add: net_parse_subnets_def)
    qed
  qed
qed

lemma net_parse_links_loop:
  assumes "net_parse_links md = Inr ls"
  shows "\<exists>ic. py_get md ''interfaces'' JNull = Inr ic \<and>
           (if truthy ic then \<exists>ts. py_iter ic = Inr ts \<and> links_loop ic ts 0 [] = Inr ls
            else ls = [])"
proof (cases "py_get md ''interfaces'' JNull")
  case (Inl e)
  with assms show ?thesis by (simp add: net_parse_links_def)
next
  case ic: (Inr ic)
  show ?thesis
  proof (cases "py_iter ic")
    case (Inl e)
    with assms ic show ?thesis by (auto simp add: net_parse_links_def split: if_splits)
  next
    case (Inr ts)
    with assms ic show ?thesis by (auto simp add: net_parse_links_def split: if_splits)
  qed
qed

lemma parse_links_subnets_consistent:
  assumes "net_parse_links md = Inr ls" and "net_parse_subnets cidr md = Inr ns"
  shows "\<forall>n \<in> set ns. \<exists>l \<in> set ls. link n = link_name l"
proof -
  from net_parse_links_loop [OF assms(1)] obtain ic where
    ic: "py_get md ''interfaces'' JNull = Inr ic"
    and l: "if truthy ic then \<exists>ts. py_iter ic = Inr ts \<and> links_loop ic ts 0 [] = Inr ls
            else ls = []"
    by blast
  show ?thesis
  proof (cases "truthy ic")
    case False
    with ic assms(2) show ?thesis by (simp add: net_parse_subnets_def)
  next
    case True
    with l obtain ts where ts: "py_iter ic = Inr ts" "links_loop ic ts 0 [] = Inr ls"
      by auto
    from links_loop_names [OF ts(2)]
    have names: "map link_name ls = map (\<lambda>t. ''Network '' @ py_str t) ts" by simp
    from net_parse_subnets_loop [OF assms(2) ic True ts(1)]
    consider "ns = []" | dns ar where "subnets_loop cidr ic dns ar ts 0 [] = Inr ns"
      by blast
    then show ?thesis
    proof cases
      case 1
      then show ?thesis by simp
    next
      case 2
      show ?thesis
      proof
        fix n assume "n \<in> set ns"
        with subnets_loop_links [OF 2] obtain t where
          t: "t \<in> set ts" "link n = ''Network '' @ py_str t" by auto
        from t(1) have "''Network '' @ py_str t \<in> set (map (\<lambda>t. ''Network '' @ py_str t) ts)"
          by (simp del: append.simps)
        with names have "''Network '' @ py_str t \<in> set (map link_name ls)" by simp
        with t(2) show "\<exists>l \<in> set ls. link n = link_name l" by auto
      qed
    qed
  qed
qed

lemma links_loop_valid:
  assumes "\<forall>t \<in> set ts. \<exists>v. map_of ifs t = Some v \<and> has_mac v"
  shows "\<exists>ls. links_loop (JDict ifs) (map JStr ts) i acc = Inr (acc @ ls) \<and>
           length ls = length ts \<and>
           (\<forall>k < length ts. \<forall>nic rest mac.
              map_of ifs (ts ! k) = Some (JList (JDict nic # rest)) \<and>
              map_of nic ''mac'' = Some (JStr mac) \<longrightarrow>
              ls ! k =
                \<lparr>link_id = ''interface'' @ str_int (i + 1 + int k),
                 link_name = ''Network '' @ ts ! k,
                 link_type = LINK_TYPE_PHYSICAL, enabled = True,
                 mac_address = map upper_char mac,
                 mtu = field (JDict nic) ''mtu'' (JInt 1500),
                 bond = JNull, vlan_link = JNull, vlan_id = JNull\<rparr>)"
  using assms
proof (induction ts arbitrary: i acc)
  case Nil
  then show ?case by simp
next
  case (Cons t ts)
  from Cons.prems obtain v where v: "map_of ifs t = Some v" "has_mac v" by auto
  from v(2) obtain nic rest mac where
    nic: "v = JList (JDict nic # rest)" "map_of nic ''mac'' = Some (JStr mac)"
    by (rule has_macE)
  define l where "l =
    \<lparr>link_id = ''interface'' @ str_int (i + 1), link_name = ''Network '' @ t,
     link_type = LINK_TYPE_PHYSICAL, enabled = True, mac_address = map upper_char mac,
     mtu = field (JDict nic) ''mtu'' (JInt 1500),
     bond = JNull, vlan_link = JNull, vlan_id = JNull\<rparr>"
  have step: "links_loop (JDict ifs) (map JStr (t # ts)) i acc =
              links_loop (JDict ifs) (map JStr ts) (i + 1) (acc @ [l])"
    using links_loop_step [of ifs t nic rest mac "map JStr ts" i acc] v(1) nic
    by (simp add: l_def)
  from Cons.prems have "\<forall>t \<in> set ts. \<exists>v. map_of ifs t = Some v \<and> has_mac v" by simp
  from Cons.IH [OF this, of "i + 1" "acc @ [l]"] obtain ls where
    ls: "links_loop (JDict ifs) (map JStr ts) (i + 1) (acc @ [l]) = Inr ((acc @ [l]) @ ls)"
      "length ls = length ts"
      "\<forall>k < length ts. \<forall>nic rest mac.
         map_of ifs (ts ! k) = Some (JList (JDict nic # rest)) \<and>
         map_of nic ''mac'' = Some (JStr mac) \<longrightarrow>
         ls ! k =
           \<lparr>link_id = ''interface'' @ str_int (i + 1 + 1 + int k),
            link_name = ''Network '' @ ts ! k,
            link_type = LINK_TYPE_PHYSICAL, enabled = True,
            mac_address = map upper_char mac,
            mtu = field (JDict nic) ''mtu'' (JInt 1500),
            bond = JNull, vlan_link = JNull, vlan_id = JNull\<rparr>"
    by blast
  have "\<forall>k < length (t # ts). \<forall>nic rest mac.
         map_of ifs ((t # ts) ! k) = Some (JList (JDict nic # rest)) \<and>
         map_of nic ''mac'' = Some (JStr mac) \<longrightarrow>
         (l # ls) ! k =
           \<lparr>link_id = ''interface'' @ str_int (i + 1 + int k),
            link_name = ''Network '' @ (t # ts) ! k,
            link_type = LINK_TYPE_PHYSICAL, enabled = True,
            mac_address = map upper_char mac,
            mtu = field (JDict nic) ''mtu'' (JInt 1500),
            bond = JNull, vlan_link = JNull, vlan_id = JNull\<rparr>"
  proof (intro allI impI)
    fix k nic' rest' mac'
    assume k: "k < length (t # ts)"
      and h: "map_of ifs ((t # ts) ! k) = Some (JList (JDict nic' # rest')) \<and>
              map_of nic' ''mac'' = Some (JStr mac')"
    show "(l # ls) ! k =
           \<lparr>link_id = ''interface'' @ str_int (i + 1 + int k),
            link_name = ''Network '' @ (t # ts) ! k,
            link_type = LINK_TYPE_PHYSICAL, enabled = True,
            mac_address = map upper_char mac',
            mtu = field (JDict nic') ''mtu'' (JInt 1500),
            bond = JNull, vlan_link = JNull, vlan_id = JNull\<rparr>"
    proof (cases k)
      case 0
      with h v nic show ?thesis by (simp add: l_def)
    next
      case (Suc j)
      with k h ls(3) [rule_format, of j nic' rest' mac'] have "ls ! j =
           \<lparr>link_id = ''interface'' @ str_int (i + 1 + 1 + int j),
            link_name = ''Network '' @ ts ! j,
            link_type = LINK_TYPE_PHYSICAL, enabled = True,
            mac_address = map upper_char mac',
            mtu = field (JDict nic') ''mtu'' (JInt 1500),
            bond = JNull, vlan_link = JNull, vlan_id = JNull\<rparr>"
        by simp
      with Suc show ?thesis by (simp add: algebra_simps)
    qed
  qed
  with step ls(1,2) show ?case
    by (intro exI [of _ "l # ls"]) simp
qed


lemma py_iter_keys: "map (\<lambda>kv. JStr (fst kv)) kvs = map JStr (map fst kvs)"
  by simp

section \<open>One link per interface class\<close>








text \<open>The derivations on the test's document, with the results that the test
  expects.\<close>

lemma links_METADATA:
  "net_parse_links (JDict METADATA) =
     Inr [\<lparr>link_id = ''interface1'', link_name = ''Network public'',
           link_type = LINK_TYPE_PHYSICAL, enabled = True,
           mac_address = ''40:9A:4C:8D:96:77'', mtu = JInt 1500,
           bond = JNull, vlan_link = JNull, vlan_id = JNull\<rparr>]"
  by code_simp

lemma subnets_METADATA:
  "net_parse_subnets ip_netmask_to_cidr (JDict METADATA) =
     Inr [\<lparr>link = ''Network public'', address_cidr = JStr ''176.57.186.5/24'',
           dns_nameservers = JList [JStr ''8.8.8.8'', JStr ''1.1.1.1''],
           routes = [\<lparr>network_cidr = JStr ''0.0.0.0/0'', gateway = JStr ''176.57.186.1''\<rparr>,
                     \<lparr>network_cidr = JStr ''169.254.169.254/32'',
                      gateway = JStr ''176.57.186.1''\<rparr>]\<rparr>]"
  by code_simp

lemma services_METADATA:
  "net_parse_services (JDict METADATA) =
     Inr [\<lparr>addresses = JList [JStr ''8.8.8.8'', JStr ''1.1.1.1''], search = JNull\<rparr>]"
  by code_simp

lemma details_METADATA:
  "get_network_details_v2 ip_netmask_to_cidr (JDict METADATA) =
     Inr (Some
       \<lparr>links =
          [\<lparr>link_id = ''interface1'', link_name = ''Network public'',
            link_type = LINK_TYPE_PHYSICAL, enabled = True,
            mac_address = ''40:9A:4C:8D:96:77'', mtu = JInt 1500,
            bond = JNull, vlan_link = JNull, vlan_id = JNull\<rparr>],
        networks =
          [\<lparr>link = ''Network public'', address_cidr = JStr ''176.57.186.5/24'',
            dns_nameservers = JList [JStr ''8.8.8.8'', JStr ''1.1.1.1''],
            routes = [\<lparr>network_cidr = JStr ''0.0.0.0/0'', gateway = JStr ''176.57.186.1''\<rparr>,
                      \<lparr>network_cidr = JStr ''169.254.169.254/32'',
                       gateway = JStr ''176.57.186.1''\<rparr>]\<rparr>],
        services =
          [\<lparr>addresses = JList [JStr ''8.8.8.8'', JStr ''1.1.1.1''], search = JNull\<rparr>]\<rparr>)"
  by code_simp

section \<open>Networks refer to links that exist\<close>

text \<open>Claim C9. Whenever link parsing and subnet parsing both return on a document,
  the \<open>link\<close> of every network is the name of one of the links; so in a model that
  \<^verbatim>\<open>get_network_details_v2\<close> returns, every network refers to one of the model's links.\<close>

theorem networks_reference_links:
  "(net_parse_links md = Inr ls \<and> net_parse_subnets cidr md = Inr ns \<longrightarrow>
      (\<forall>n \<in> set ns. \<exists>l \<in> set ls. link n = link_name l)) \<and>
   (get_network_details_v2 cidr md = Inr (Some nd) \<longrightarrow>
      (\<forall>n \<in> set (networks nd). \<exists>l \<in> set (links nd). link n = link_name l))"
proof (intro conjI impI)
  assume "net_parse_links md = Inr ls \<and> net_parse_subnets cidr md = Inr ns"
  then show "\<forall>n \<in> set ns. \<exists>l \<in> set ls. link n = link_name l"
    using parse_links_subnets_consistent [of md ls cidr ns] by blast
next
  assume d: "get_network_details_v2 cidr md = Inr (Some nd)"
  then obtain ls' ns' where
    "net_parse_links md = Inr ls'" "net_parse_subnets cidr md = Inr ns'"
    "links nd = ls'" "networks nd = ns'"
    by (auto simp: get_network_details_v2_def split: sum.splits if_splits)
  then show "\<forall>n \<in> set (networks nd). \<exists>l \<in> set (links nd). link n = link_name l"
    using parse_links_subnets_consistent [of md ls' cidr ns'] by blast
qed

theorem networks_reference_links_witness:
  "net_parse_links (JDict METADATA) =
     Inr [\<lparr>link_id = ''interface1'', link_name = ''Network public'',
           link_type = LINK_TYPE_PHYSICAL, enabled = True,
           mac_address = ''40:9A:4C:8D:96:77'', mtu = JInt 1500,
           bond = JNull, vlan_link = JNull, vlan_id = JNull\<rparr>] \<and>
   (\<exists>n. net_parse_subnets ip_netmask_to_cidr (JDict METADATA) = Inr [n] \<and>
        link n = ''Network public'') \<and>
   (\<exists>l n s. get_network_details_v2 ip_netmask_to_cidr (JDict METADATA) =
        Inr (Some \<lparr>links = [l], networks = [n], services = s\<rparr>) \<and> link n = link_name l)"
proof -
  let ?l = "\<lparr>link_id = ''interface1'', link_name = ''Network public'',
           link_type = LINK_TYPE_PHYSICAL, enabled = True,
           mac_address = ''40:9A:4C:8D:96:77'', mtu = JInt 1500,
           bond = JNull, vlan_link = JNull, vlan_id = JNull\<rparr>"
  from subnets_METADATA obtain n where
    n: "net_parse_subnets ip_netmask_to_cidr (JDict METADATA) = Inr [n]" by blast
  from networks_reference_links [of "JDict METADATA" "[?l]" ip_netmask_to_cidr "[n]"]
    links_METADATA n
  have "\<forall>n' \<in> set [n]. \<exists>l \<in> set [?l]. link n' = link_name l" by blast
  then have a: "link n = ''Network public''" by simp
  from details_METADATA obtain l' n' s where
    d: "get_network_details_v2 ip_netmask_to_cidr (JDict METADATA) =
          Inr (Some \<lparr>links = [l'], networks = [n'], services = s\<rparr>)"
    by blast
  from networks_reference_links
         [of "JDict METADATA" "[]" ip_netmask_to_cidr "[]"
             "\<lparr>links = [l'], networks = [n'], services = s\<rparr>"] d
  have "\<forall>x \<in> set [n']. \<exists>l \<in> set [l']. link x = link_name l" by simp
  then have "link n' = link_name l'" by simp
  with links_METADATA n a d show ?thesis by blast
qed

section \<open>Subnets need both sections\<close>

text \<open>Claim C3. When the \<^verbatim>\<open>dns\<close> section of the document is absent or empty (or any
  other value that Python takes for false), subnet parsing returns the empty list
  without an error, whatever \<^verbatim>\<open>interfaces\<close> holds; and the same when \<^verbatim>\<open>interfaces\<close> is
  absent or empty, whatever \<^verbatim>\<open>dns\<close> holds.\<close>

theorem net_parse_subnets_needs_both_sections:
  "(\<not> truthy (field (JDict md) ''dns'' JNull) \<longrightarrow>
      net_parse_subnets cidr (JDict md) = Inr []) \<and>
   (\<not> truthy (field (JDict md) ''interfaces'' JNull) \<longrightarrow>
      net_parse_subnets cidr (JDict md) = Inr [])"
  by (simp add: net_parse_subnets_def)

text \<open>An absent section, an empty object and \<^verbatim>\<open>null\<close> are such values.\<close>

lemma absent_or_empty_falsy:
  "map_of md k = None \<or> map_of md k = Some (JDict []) \<or> map_of md k = Some JNull \<Longrightarrow>
   \<not> truthy (field (JDict md) k JNull)"
  by auto

lemma no_dns_sections:
  "map_of no_dns ''dns'' = None" "map_of empty_dns ''dns'' = Some (JDict [])"
  "map_of no_interfaces ''interfaces'' = None"
  "truthy (field (JDict no_dns) ''interfaces'' JNull)"
  "truthy (field (JDict empty_dns) ''interfaces'' JNull)"
  "truthy (field (JDict no_interfaces) ''dns'' JNull)"
  by (simp_all add: no_dns_def empty_dns_def no_interfaces_def METADATA_def)

theorem net_parse_subnets_needs_both_sections_witness:
  "truthy (field (JDict no_dns) ''interfaces'' JNull) \<and>
   map_of no_dns ''dns'' = None \<and>
   net_parse_subnets ip_netmask_to_cidr (JDict no_dns) = Inr [] \<and>
   truthy (field (JDict empty_dns) ''interfaces'' JNull) \<and>
   map_of empty_dns ''dns'' = Some (JDict []) \<and>
   net_parse_subnets ip_netmask_to_cidr (JDict empty_dns) = Inr [] \<and>
   truthy (field (JDict no_interfaces) ''dns'' JNull) \<and>
   map_of no_interfaces ''interfaces'' = None \<and>
   net_parse_subnets ip_netmask_to_cidr (JDict no_interfaces) = Inr []"
  using net_parse_subnets_needs_both_sections [of no_dns ip_netmask_to_cidr]
    net_parse_subnets_needs_both_sections [of empty_dns ip_netmask_to_cidr]
    net_parse_subnets_needs_both_sections [of no_interfaces ip_netmask_to_cidr]
    no_dns_sections
  by simp

section \<open>The combined model\<close>

text \<open>Claim C4. \<^verbatim>\<open>get_network_details_v2\<close> returns \<^verbatim>\<open>None\<close> when the \<^verbatim>\<open>interfaces\<close>
  section is absent or empty, and when link parsing returns no link. On every other
  document on which the three derivations return, it returns the model made of their
  three results, also when the networks or the services are empty.\<close>

theorem get_network_details_v2_cases:
  "(\<not> truthy (field (JDict md) ''interfaces'' JNull) \<longrightarrow>
      get_network_details_v2 cidr (JDict md) = Inr None) \<and>
   (net_parse_links (JDict md) = Inr [] \<longrightarrow>
      get_network_details_v2 cidr (JDict md) = Inr None) \<and>
   (truthy (field (JDict md) ''interfaces'' JNull) \<and>
    net_parse_links (JDict md) = Inr ls \<and> ls \<noteq> [] \<and>
    net_parse_subnets cidr (JDict md) = Inr ns \<and>
    net_parse_services (JDict md) = Inr ss \<longrightarrow>
      get_network_details_v2 cidr (JDict md) =
        Inr (Some \<lparr>links = ls, networks = ns, services = ss\<rparr>))"
  by (simp add: get_network_details_v2_def)

lemma links_no_interfaces: "net_parse_links (JDict no_interfaces) = Inr []"
  by code_simp

lemma links_no_dns:
  "net_parse_links (JDict no_dns) =
     Inr [\<lparr>link_id = ''interface1'', link_name = ''Network public'',
           link_type = LINK_TYPE_PHYSICAL, enabled = True,
           mac_address = ''40:9A:4C:8D:96:77'', mtu = JInt 1500,
           bond = JNull, vlan_link = JNull, vlan_id = JNull\<rparr>]"
  by code_simp

lemma services_no_dns: "net_parse_services (JDict no_dns) = Inr []"
  by code_simp

lemma subnets_no_dns: "net_parse_subnets ip_netmask_to_cidr (JDict no_dns) = Inr []"
  by code_simp

theorem get_network_details_v2_cases_witness:
  "get_network_details_v2 ip_netmask_to_cidr (JDict no_interfaces) = Inr None \<and>
   net_parse_links (JDict no_interfaces) = Inr [] \<and>
   get_network_details_v2 ip_netmask_to_cidr (JDict no_dns) =
     Inr (Some
       \<lparr>links =
          [\<lparr>link_id = ''interface1'', link_name = ''Network public'',
            link_type = LINK_TYPE_PHYSICAL, enabled = True,
            mac_address = ''40:9A:4C:8D:96:77'', mtu = JInt 1500,
            bond = JNull, vlan_link = JNull, vlan_id = JNull\<rparr>],
        networks = [], services = []\<rparr>) \<and>
   get_network_details_v2 ip_netmask_to_cidr (JDict METADATA) =
     Inr (Some
       \<lparr>links =
          [\<lparr>link_id = ''interface1'', link_name = ''Network public'',
            link_type = LINK_TYPE_PHYSICAL, enabled = True,
            mac_address = ''40:9A:4C:8D:96:77'', mtu = JInt 1500,
            bond = JNull, vlan_link = JNull, vlan_id = JNull\<rparr>],
        networks =
          [\<lparr>link = ''Network public'', address_cidr = JStr ''176.57.186.5/24'',
            dns_nameservers = JList [JStr ''8.8.8.8'', JStr ''1.1.1.1''],
            routes = [\<lparr>network_cidr = JStr ''0.0.0.0/0'', gateway = JStr ''176.57.186.1''\<rparr>,
                      \<lparr>network_cidr = JStr ''169.254.169.254/32'',
                       gateway = JStr ''176.57.186.1''\<rparr>]\<rparr>],
        services =
          [\<lparr>addresses = JList [JStr ''8.8.8.8'', JStr ''1.1.1.1''], search = JNull\<rparr>]\<rparr>)"
proof -
  have t1: "truthy (field (JDict no_dns) ''interfaces'' JNull)"
    and t2: "truthy (field (JDict METADATA) ''interfaces'' JNull)"
    and f: "\<not> truthy (field (JDict no_interfaces) ''interfaces'' JNull)"
    by (simp_all add: no_dns_def no_interfaces_def METADATA_def)
  note c1 = get_network_details_v2_cases [of no_interfaces ip_netmask_to_cidr "[]" "[]" "[]"]
  note c2 = get_network_details_v2_cases [of no_dns ip_netmask_to_cidr _ "[]" "[]"]
  note c3 = get_network_details_v2_cases [of METADATA ip_netmask_to_cidr]
  from c1 f links_no_interfaces
  have a: "get_network_details_v2 ip_netmask_to_cidr (JDict no_interfaces) = Inr None"
    by blast
  from c2 t1 links_no_dns subnets_no_dns services_no_dns
  have b: "get_network_details_v2 ip_netmask_to_cidr (JDict no_dns) =
     Inr (Some
       \<lparr>links =
          [\<lparr>link_id = ''interface1'', link_name = ''Network public'',
            link_type = LINK_TYPE_PHYSICAL, enabled = True,
            mac_address = ''40:9A:4C:8D:96:77'', mtu = JInt 1500,
            bond = JNull, vlan_link = JNull, vlan_id = JNull\<rparr>],
        networks = [], services = []\<rparr>)"
    by simp
  from c3 t2 links_METADATA subnets_METADATA services_METADATA
  have c: "get_network_details_v2 ip_netmask_to_cidr (JDict METADATA) =
     Inr (Some
       \<lparr>links =
          [\<lparr>link_id = ''interface1'', link_name = ''Network public'',
            link_type = LINK_TYPE_PHYSICAL, enabled = True,
            mac_address = ''40:9A:4C:8D:96:77'', mtu = JInt 1500,
            bond = JNull, vlan_link = JNull, vlan_id = JNull\<rparr>],
        networks =
          [\<lparr>link = ''Network public'', address_cidr = JStr ''176.57.186.5/24'',
            dns_nameservers = JList [JStr ''8.8.8.8'', JStr ''1.1.1.1''],
            routes = [\<lparr>network_cidr = JStr ''0.0.0.0/0'', gateway = JStr ''176.57.186.1''\<rparr>,
                      \<lparr>network_cidr = JStr ''169.254.169.254/32'',
                       gateway = JStr ''176.57.186.1''\<rparr>]\<rparr>],
        services =
          [\<lparr>addresses = JList [JStr ''8.8.8.8'', JStr ''1.1.1.1''], search = JNull\<rparr>]\<rparr>)"
    by simp
  from a b c links_no_interfaces show ?thesis by blast
qed

section \<open>Routes and name servers of the networks\<close>

lemma routes_loop_result:
  "routes_loop rs acc = Inr r \<Longrightarrow>
   (\<forall>x \<in> set rs. is_dict x) \<and>
   r = acc @ map (\<lambda>x. \<lparr>network_cidr = field x ''destination'' JNull,
                        gateway = field x ''gateway'' JNull\<rparr>) rs"
proof (induction rs arbitrary: acc)
  case Nil
  then show ?case by simp
next
  case (Cons x rs)
  from Cons.prems obtain d g where
    d: "py_get x ''destination'' JNull = Inr d" and g: "py_get x ''gateway'' JNull = Inr g"
    and rest: "routes_loop rs (acc @ [\<lparr>network_cidr = d, gateway = g\<rparr>]) = Inr r"
    by (auto split: sum.splits)
  from py_get_field [OF d] py_get_field [OF g] py_get_dict [OF d] Cons.IH [OF rest]
  show ?case by simp
qed

lemma py_iter_entries:
  assumes "py_iter ar = Inr rs" and "\<forall>x \<in> set rs. is_dict x"
  shows "rs = entries ar"
proof (cases ar)
  case (JStr s)
  with assms show ?thesis by (cases s) auto
next
  case (JDict kvs)
  with assms show ?thesis by (cases kvs) auto
qed (use assms in auto)

lemma document_routes_loop:
  assumes "py_iter (field (JDict md) ''routes'' (JList [])) = Inr rs"
    and "routes_loop rs acc = Inr r"
  shows "r = acc @ document_routes md"
proof -
  from routes_loop_result [OF assms(2)] have
    d: "\<forall>x \<in> set rs. is_dict x"
    and r: "r = acc @ map (\<lambda>x. \<lparr>network_cidr = field x ''destination'' JNull,
                                 gateway = field x ''gateway'' JNull\<rparr>) rs"
    by blast+
  from py_iter_entries [OF assms(1) d] r show ?thesis
    by (simp add: document_routes_def)
qed

lemma public_part_result:
  assumes "public_part dns (JStr t) subnet dflt = Inr (r0, nsv)"
  shows "r0 = (if t = ''public''
               then [\<lparr>network_cidr = JStr dflt, gateway = field subnet ''gateway'' JNull\<rparr>]
               else []) \<and>
         nsv = (if t = ''public'' then field dns ''nameservers'' (JList []) else JList [])"
proof (cases "t = ''public''")
  case False
  with assms show ?thesis by (simp add: public_part_def)
next
  case True
  with assms obtain g n where
    g: "py_get subnet ''gateway'' JNull = Inr g"
    and n: "py_get dns ''nameservers'' (JList []) = Inr n"
    and r: "r0 = [\<lparr>network_cidr = JStr dflt, gateway = g\<rparr>]" "nsv = n"
    by (auto simp: public_part_def split: sum.splits)
  from py_get_field [OF g] py_get_field [OF n] r True show ?thesis by simp
qed

lemma versions_loop_step:
  assumes "versions_loop cidr dns ar (JStr t) nic (v # vs) acc = Inr ns"
  shows "is_dict nic \<and>
    (if truthy (field nic v JNull)
     then \<exists>n r0 nsv rs r1.
        public_part dns (JStr t) (field nic v JNull)
          (if v = ''ipv4'' then ''0.0.0.0/0'' else ''::/0'') = Inr (r0, nsv) \<and>
        py_iter ar = Inr rs \<and> routes_loop rs r0 = Inr r1 \<and>
        link n = ''Network '' @ t \<and> routes n = r1 \<and> dns_nameservers n = nsv \<and>
        versions_loop cidr dns ar (JStr t) nic vs (acc @ [n]) = Inr ns
     else versions_loop cidr dns ar (JStr t) nic vs acc = Inr ns)"
proof -
  from assms obtain subnet where s: "py_get nic v JNull = Inr subnet"
    by (auto split: sum.splits)
  note sf = py_get_field [OF s]
  show ?thesis
  proof (cases "truthy subnet")
    case False
    with assms s sf py_get_dict [OF s] show ?thesis by simp
  next
    case True
    with assms s obtain r0 nsv rs r1 a m c where
      "public_part dns (JStr t) subnet (if v = ''ipv4'' then ''0.0.0.0/0'' else ''::/0'')
         = Inr (r0, nsv)"
      "py_iter ar = Inr rs" "routes_loop rs r0 = Inr r1"
      "versions_loop cidr dns ar (JStr t) nic vs
         (acc @ [\<lparr>link = ''Network '' @ t, address_cidr = c,
                  dns_nameservers = nsv, routes = r1\<rparr>]) = Inr ns"
      by (auto split: sum.splits prod.splits)
    with True sf py_get_dict [OF s] show ?thesis
      by (intro conjI) (simp, simp, metis Network.select_convs(1,3,4))
  qed
qed


lemma versions_loop_result:
  assumes "versions_loop cidr (field (JDict md) ''dns'' JNull)
             (field (JDict md) ''routes'' (JList [])) (JStr t) nic vs acc = Inr ns"
  shows "map summary ns = map summary acc @
           concat (map (\<lambda>v. if truthy (field nic v JNull)
                             then [family_network md t v (field nic v JNull)] else []) vs)"
  using assms
proof (induction vs arbitrary: acc)
  case Nil
  then show ?case by simp
next
  case (Cons v vs)
  note step = versions_loop_step [OF Cons.prems]
  show ?case
  proof (cases "truthy (field nic v JNull)")
    case False
    with step have "versions_loop cidr (field (JDict md) ''dns'' JNull)
             (field (JDict md) ''routes'' (JList [])) (JStr t) nic vs acc = Inr ns"
      by simp
    from Cons.IH [OF this] False show ?thesis by simp
  next
    case True
    with step obtain n r0 nsv rs r1 where
      pp: "public_part (field (JDict md) ''dns'' JNull) (JStr t) (field nic v JNull)
             (if v = ''ipv4'' then ''0.0.0.0/0'' else ''::/0'') = Inr (r0, nsv)"
      and it: "py_iter (field (JDict md) ''routes'' (JList [])) = Inr rs"
      and rl: "routes_loop rs r0 = Inr r1"
      and n: "link n = ''Network '' @ t" "routes n = r1" "dns_nameservers n = nsv"
      and rest: "versions_loop cidr (field (JDict md) ''dns'' JNull)
             (field (JDict md) ''routes'' (JList [])) (JStr t) nic vs (acc @ [n]) = Inr ns"
      by auto
    from public_part_result [OF pp] document_routes_loop [OF it rl] n
    have "summary n = family_network md t v (field nic v JNull)"
      by (simp add: summary_def family_network_def)
    with Cons.IH [OF rest] True show ?thesis by simp
  qed
qed

lemma getitem_first_descriptor:
  assumes "py_getitem v (JInt 0) = Inr nic" and "is_dict nic"
  shows "nic = first_descriptor v"
proof (cases v)
  case (JList xs)
  with assms show ?thesis by (cases xs) (auto simp: seq_index_def)
next
  case (JStr s)
  with assms show ?thesis by (cases s) (auto simp: seq_index_def)
qed (use assms in auto)

lemma subnets_loop_result:
  assumes "subnets_loop cidr (JDict ifs) (field (JDict md) ''dns'' JNull)
             (field (JDict md) ''routes'' (JList [])) (map JStr ts) i acc = Inr ns"
  shows "map summary ns = map summary acc @
           concat (map (\<lambda>t. class_networks md t (field (JDict ifs) t JNull)) ts)"
  using assms
proof (induction ts arbitrary: i acc)
  case Nil
  then show ?case by simp
next
  case (Cons t ts)
  from Cons.prems obtain v nic acc' where
    v: "py_getitem (JDict ifs) (JStr t) = Inr v"
    and nic: "py_getitem v (JInt 0) = Inr nic"
    and vl: "versions_loop cidr (field (JDict md) ''dns'' JNull)
             (field (JDict md) ''routes'' (JList [])) (JStr t) nic [''ipv4'', ''ipv6''] acc
             = Inr acc'"
    and rest: "subnets_loop cidr (JDict ifs) (field (JDict md) ''dns'' JNull)
             (field (JDict md) ''routes'' (JList [])) (map JStr ts) (i + 1) acc' = Inr ns"
    by (auto simp del: versions_loop.simps py_getitem.simps split: sum.splits)
  from v have fv: "field (JDict ifs) t JNull = v" by (auto split: option.splits)
  from versions_loop_step [OF vl] have "is_dict nic" by blast
  from getitem_first_descriptor [OF nic this] have fd: "first_descriptor v = nic" by simp
  from versions_loop_result [OF vl] fd
  have "map summary acc' = map summary acc @ class_networks md t v"
    by (simp add: class_networks_def)
  with Cons.IH [OF rest] fv show ?case by simp
qed

lemma distinct_fields:
  assumes "distinct (map fst kvs)"
  shows "map (\<lambda>t. f t (field (JDict kvs) t JNull)) (map fst kvs) =
         map (\<lambda>kv. f (fst kv) (snd kv)) kvs"
proof -
  have "f (fst kv) (field (JDict kvs) (fst kv) JNull) = f (fst kv) (snd kv)"
    if "kv \<in> set kvs" for kv
  proof -
    from that assms have "map_of kvs (fst kv) = Some (snd kv)" by simp
    then show ?thesis by simp
  qed
  then show ?thesis by (simp add: comp_def)
qed

lemma net_parse_subnets_summary:
  assumes "map_of md ''interfaces'' = Some (JDict ifs)"
    and "distinct (map fst ifs)"
    and "truthy (field (JDict md) ''dns'' JNull)"
    and "net_parse_subnets cidr (JDict md) = Inr ns"
  shows "map summary ns = concat (map (\<lambda>kv. class_networks md (fst kv) (snd kv)) ifs)"
proof (cases "ifs = []")
  case True
  with assms show ?thesis by (simp add: net_parse_subnets_def)
next
  case False
  have keys: "map (\<lambda>kv. JStr (fst kv)) ifs = map JStr (map fst ifs)" by simp
  from assms False have "subnets_loop cidr (JDict ifs) (field (JDict md) ''dns'' JNull)
             (field (JDict md) ''routes'' (JList [])) (map JStr (map fst ifs)) 0 [] = Inr ns"
    by (simp add: net_parse_subnets_def keys del: map_map subnets_loop.simps)
  from subnets_loop_result [OF this]
  have a: "map summary ns =
          concat (map (\<lambda>t. class_networks md t (field (JDict ifs) t JNull)) (map fst ifs))"
    by (simp del: map_map field.simps)
  show ?thesis
    by (simp only: a distinct_fields [OF assms(2), of "class_networks md"])
qed


lemma class_networks_member:
  assumes "x \<in> set (class_networks md t d)"
  shows "\<exists>v subnet. x = family_network md t v subnet \<and> (v = ''ipv4'' \<or> v = ''ipv6'')"
  using assms by (auto simp: class_networks_def split: if_splits)

text \<open>Claim C1. On a document whose \<^verbatim>\<open>interfaces\<close> is a mapping and whose \<^verbatim>\<open>dns\<close>
  section is present and not empty, the networks that subnet parsing returns are, class
  by class in document order and IPv4 before IPv6, those of \<open>class_networks\<close>. So a
  network of the class \<^verbatim>\<open>public\<close> has the default route of its family first
  (\<^verbatim>\<open>0.0.0.0/0\<close> or \<^verbatim>\<open>::/0\<close>, through the gateway of its subnet), then one route per entry
  of the document's \<^verbatim>\<open>routes\<close> in order, whatever the family of the destination, and the
  name servers of \<^verbatim>\<open>dns\<close>; a network of another class has the document's routes only and
  no name server.\<close>

theorem net_parse_subnets_routes_and_nameservers:
  assumes "map_of md ''interfaces'' = Some (JDict ifs)"
    and "distinct (map fst ifs)"
    and "truthy (field (JDict md) ''dns'' JNull)"
    and "net_parse_subnets cidr (JDict md) = Inr ns"
  shows "map summary ns = concat (map (\<lambda>kv. class_networks md (fst kv) (snd kv)) ifs) \<and>
    (\<forall>n \<in> set ns.
       (link n = ''Network public'' \<longrightarrow>
          (\<exists>gw. routes n = \<lparr>network_cidr = JStr ''0.0.0.0/0'', gateway = gw\<rparr> # document_routes md \<or>
                routes n = \<lparr>network_cidr = JStr ''::/0'', gateway = gw\<rparr> # document_routes md) \<and>
          dns_nameservers n = field (field (JDict md) ''dns'' JNull) ''nameservers'' (JList [])) \<and>
       (link n \<noteq> ''Network public'' \<longrightarrow>
          routes n = document_routes md \<and> dns_nameservers n = JList []))"
proof
  show a: "map summary ns = concat (map (\<lambda>kv. class_networks md (fst kv) (snd kv)) ifs)"
    using assms by (rule net_parse_subnets_summary)
  show "\<forall>n \<in> set ns.
       (link n = ''Network public'' \<longrightarrow>
          (\<exists>gw. routes n = \<lparr>network_cidr = JStr ''0.0.0.0/0'', gateway = gw\<rparr> # document_routes md \<or>
                routes n = \<lparr>network_cidr = JStr ''::/0'', gateway = gw\<rparr> # document_routes md) \<and>
          dns_nameservers n = field (field (JDict md) ''dns'' JNull) ''nameservers'' (JList [])) \<and>
       (link n \<noteq> ''Network public'' \<longrightarrow>
          routes n = document_routes md \<and> dns_nameservers n = JList [])"
  proof
    fix n assume "n \<in> set ns"
    then have "summary n \<in> set (map summary ns)" by simp
    with a obtain kv where "summary n \<in> set (class_networks md (fst kv) (snd kv))"
      by auto
    from class_networks_member [OF this] obtain v subnet where
      n: "summary n = family_network md (fst kv) v subnet" and v: "v = ''ipv4'' \<or> v = ''ipv6''"
      by blast
    from n have l: "link n = ''Network '' @ fst kv"
      and r: "routes n =
        (if fst kv = ''public''
         then [\<lparr>network_cidr = JStr (if v = ''ipv4'' then ''0.0.0.0/0'' else ''::/0''),
                 gateway = field subnet ''gateway'' JNull\<rparr>]
         else []) @ document_routes md"
      and d: "dns_nameservers n =
        (if fst kv = ''public''
         then field (field (JDict md) ''dns'' JNull) ''nameservers'' (JList [])
         else JList [])"
      by (simp_all add: summary_def family_network_def)
    show "(link n = ''Network public'' \<longrightarrow>
          (\<exists>gw. routes n = \<lparr>network_cidr = JStr ''0.0.0.0/0'', gateway = gw\<rparr> # document_routes md \<or>
                routes n = \<lparr>network_cidr = JStr ''::/0'', gateway = gw\<rparr> # document_routes md) \<and>
          dns_nameservers n = field (field (JDict md) ''dns'' JNull) ''nameservers'' (JList [])) \<and>
       (link n \<noteq> ''Network public'' \<longrightarrow>
          routes n = document_routes md \<and> dns_nameservers n = JList [])"
    proof (cases "fst kv = ''public''")
      case True
      with l r d v show ?thesis by auto
    next
      case False
      with l r d show ?thesis by simp
    qed
  qed
qed

lemma subnets_TWO_CLASSES:
  "net_parse_subnets ip_netmask_to_cidr (JDict TWO_CLASSES) =
     Inr [\<lparr>link = ''Network public'', address_cidr = JStr ''176.57.186.5/24'',
           dns_nameservers = JList [JStr ''8.8.8.8'', JStr ''1.1.1.1''],
           routes = [\<lparr>network_cidr = JStr ''0.0.0.0/0'', gateway = JStr ''176.57.186.1''\<rparr>,
                     \<lparr>network_cidr = JStr ''169.254.169.254/32'',
                      gateway = JStr ''176.57.186.1''\<rparr>]\<rparr>,
          \<lparr>link = ''Network private'', address_cidr = JStr ''10.0.0.5/16'',
           dns_nameservers = JList [],
           routes = [\<lparr>network_cidr = JStr ''169.254.169.254/32'',
                      gateway = JStr ''176.57.186.1''\<rparr>]\<rparr>]"
  by code_simp

lemma document_routes_TWO_CLASSES:
  "document_routes TWO_CLASSES =
     [\<lparr>network_cidr = JStr ''169.254.169.254/32'', gateway = JStr ''176.57.186.1''\<rparr>]"
  by code_simp

theorem net_parse_subnets_routes_and_nameservers_witness:
  "\<exists>pub priv.
     net_parse_subnets ip_netmask_to_cidr (JDict TWO_CLASSES) = Inr [pub, priv] \<and>
     link pub = ''Network public'' \<and>
     routes pub =
       [\<lparr>network_cidr = JStr ''0.0.0.0/0'', gateway = JStr ''176.57.186.1''\<rparr>,
        \<lparr>network_cidr = JStr ''169.254.169.254/32'', gateway = JStr ''176.57.186.1''\<rparr>] \<and>
     dns_nameservers pub = JList [JStr ''8.8.8.8'', JStr ''1.1.1.1''] \<and>
     link priv = ''Network private'' \<and>
     routes priv =
       [\<lparr>network_cidr = JStr ''169.254.169.254/32'', gateway = JStr ''176.57.186.1''\<rparr>] \<and>
     dns_nameservers priv = JList []"
proof -
  define ifs where "ifs =
         [(''public'', JList
            [JDict [(''ipv4'', JDict [(''address'', JStr ''176.57.186.5''),
                                      (''netmask'', JStr ''255.255.255.0''),
                                      (''gateway'', JStr ''176.57.186.1'')]),
                    (''mac'', JStr ''40:9a:4c:8d:96:77'')]]),
          (''private'', JList
            [JDict [(''ipv4'', JDict [(''address'', JStr ''10.0.0.5''),
                                      (''netmask'', JStr ''255.255.0.0'')]),
                    (''mac'', JStr ''40:9a:4c:8d:96:78''),
                    (''mtu'', JInt 9000)]])]"
  have a: "map_of TWO_CLASSES ''interfaces'' = Some (JDict ifs)"
    by (simp add: TWO_CLASSES_def ifs_def)
  have b: "distinct (map fst ifs)" by (simp add: ifs_def)
  have c: "truthy (field (JDict TWO_CLASSES) ''dns'' JNull)" by (simp add: TWO_CLASSES_def)
  from subnets_TWO_CLASSES obtain pub priv where
    p: "net_parse_subnets ip_netmask_to_cidr (JDict TWO_CLASSES) = Inr [pub, priv]"
    and l: "link pub = ''Network public''" "link priv = ''Network private''"
    by auto
  have dns: "field (field (JDict TWO_CLASSES) ''dns'' JNull) ''nameservers'' (JList []) =
             JList [JStr ''8.8.8.8'', JStr ''1.1.1.1'']"
    by (simp add: TWO_CLASSES_def)
  from net_parse_subnets_routes_and_nameservers [OF a b c p]
  have s: "map summary [pub, priv] =
             concat (map (\<lambda>kv. class_networks TWO_CLASSES (fst kv) (snd kv)) ifs)"
    and e: "\<forall>n \<in> set [pub, priv].
       (link n = ''Network public'' \<longrightarrow>
          (\<exists>gw. routes n = \<lparr>network_cidr = JStr ''0.0.0.0/0'', gateway = gw\<rparr> #
                   document_routes TWO_CLASSES \<or>
                routes n = \<lparr>network_cidr = JStr ''::/0'', gateway = gw\<rparr> #
                   document_routes TWO_CLASSES) \<and>
          dns_nameservers n =
            field (field (JDict TWO_CLASSES) ''dns'' JNull) ''nameservers'' (JList [])) \<and>
       (link n \<noteq> ''Network public'' \<longrightarrow>
          routes n = document_routes TWO_CLASSES \<and> dns_nameservers n = JList [])"
    by blast+
  from e l have priv: "routes priv = document_routes TWO_CLASSES" "dns_nameservers priv = JList []"
    by simp_all
  from e l dns have pubd: "dns_nameservers pub = JList [JStr ''8.8.8.8'', JStr ''1.1.1.1'']"
    by simp
  from s have "summary pub = family_network TWO_CLASSES ''public'' ''ipv4''
      (JDict [(''address'', JStr ''176.57.186.5''), (''netmask'', JStr ''255.255.255.0''),
              (''gateway'', JStr ''176.57.186.1'')])"
    by (simp add: ifs_def class_networks_def)
  then have pubr: "routes pub =
      \<lparr>network_cidr = JStr ''0.0.0.0/0'', gateway = JStr ''176.57.186.1''\<rparr> #
      document_routes TWO_CLASSES"
    by (simp add: summary_def family_network_def)
  from p l priv pubd pubr show ?thesis
    unfolding document_routes_TWO_CLASSES by blast
qed

section \<open>When parsing returns\<close>

lemma map_of_list_all:
  assumes "list_all P kvs" and "t \<in> set (map fst kvs)"
  shows "\<exists>v. map_of kvs t = Some v \<and> P (t, v)"
proof -
  from assms(2) obtain v where v: "map_of kvs t = Some v"
    by (cases "map_of kvs t") (auto simp: map_of_eq_None_iff)
  then have "(t, v) \<in> set kvs" by (rule map_of_SomeD)
  with assms(1) v show ?thesis by (auto simp: list_all_iff)
qed

lemma net_parse_links_total:
  assumes "interfaces_ok md"
  shows "\<exists>ls. net_parse_links (JDict md) = Inr ls"
proof (cases "map_of md ''interfaces''")
  case None
  then show ?thesis by (simp add: net_parse_links_def)
next
  case (Some ic)
  show ?thesis
  proof (cases "\<exists>ifs. ic = JDict ifs")
    case False
    with assms Some have "\<not> truthy ic"
      by (cases ic) (auto simp: interfaces_ok_def)
    with Some show ?thesis by (simp add: net_parse_links_def)
  next
    case True
    then obtain ifs where ic: "ic = JDict ifs" by blast
    with assms Some have all: "list_all (\<lambda>kv. has_mac (snd kv)) ifs"
      by (simp add: interfaces_ok_def)
    have "\<forall>t \<in> set (map fst ifs). \<exists>v. map_of ifs t = Some v \<and> has_mac v"
      using map_of_list_all [OF all] by fastforce
    from links_loop_valid [OF this, of 0 "[]"] obtain ls where
      "links_loop (JDict ifs) (map JStr (map fst ifs)) 0 [] = Inr ls" by auto
    with Some ic show ?thesis
      by (simp add: net_parse_links_def py_iter_keys del: map_map)
  qed
qed

lemma routes_loop_total:
  "list_all is_dict rs \<Longrightarrow> \<exists>r. routes_loop rs acc = Inr r"
proof (induction rs arbitrary: acc)
  case Nil
  then show ?case by simp
next
  case (Cons x rs)
  from Cons.prems obtain kvs where "x = JDict kvs" by (cases x) auto
  with Cons show ?case by simp
qed

lemma versions_loop_total:
  assumes "\<forall>v \<in> set vs. subnet_ok cidr (field (JDict nic) v JNull)"
    and "is_dict dns" and "list_all is_dict rs"
  shows "\<exists>ns. versions_loop cidr dns (JList rs) t (JDict nic) vs acc = Inr ns"
  using assms(1)
proof (induction vs arbitrary: acc)
  case Nil
  then show ?case by simp
next
  case (Cons v vs)
  then have ok: "subnet_ok cidr (field (JDict nic) v JNull)"
    and rest: "\<forall>v \<in> set vs. subnet_ok cidr (field (JDict nic) v JNull)"
    by simp_all
  define subnet where "subnet = field (JDict nic) v JNull"
  have get: "py_get (JDict nic) v JNull = Inr subnet" by (simp add: subnet_def)
  show ?case
  proof (cases "truthy subnet")
    case False
    with get Cons.IH [OF rest, of acc] show ?thesis by (simp del: py_get.simps)
  next
    case True
    with ok obtain sn c where sn: "subnet = JDict sn"
      and c: "cidr (field (JDict sn) ''address'' JNull) (field (JDict sn) ''netmask'' JNull) = Inr c"
      unfolding subnet_def [symmetric]
      by (cases subnet) (auto split: sum.splits)
    from assms(2) obtain d where d: "dns = JDict d" by (cases dns) auto
    have "\<exists>r0 nsv. public_part dns t subnet
        (if v = ''ipv4'' then ''0.0.0.0/0'' else ''::/0'') = Inr (r0, nsv)"
      by (simp add: public_part_def sn d)
    then obtain r0 nsv where pp: "public_part dns t subnet
        (if v = ''ipv4'' then ''0.0.0.0/0'' else ''::/0'') = Inr (r0, nsv)"
      by blast
    from routes_loop_total [OF assms(3), of r0] obtain r1 where
      r1: "routes_loop rs r0 = Inr r1" by blast
    from c have c': "cidr (case map_of sn ''address'' of None \<Rightarrow> JNull | Some v \<Rightarrow> v)
                      (case map_of sn ''netmask'' of None \<Rightarrow> JNull | Some v \<Rightarrow> v) = Inr c"
      by simp
    have "versions_loop cidr dns (JList rs) t (JDict nic) (v # vs) acc =
          versions_loop cidr dns (JList rs) t (JDict nic) vs
            (acc @ [\<lparr>link = ''Network '' @ py_str t, address_cidr = c,
                     dns_nameservers = nsv, routes = r1\<rparr>])"
      using get True pp r1 c' sn by (simp del: py_get.simps) (simp)
    with Cons.IH [OF rest] show ?thesis by simp
  qed
qed


lemma subnets_loop_total:
  assumes "\<forall>t \<in> set ts. \<exists>v. map_of ifs t = Some v \<and> has_mac v \<and> subnets_ok cidr v"
    and "is_dict dns" and "list_all is_dict rs"
  shows "\<exists>ns. subnets_loop cidr (JDict ifs) dns (JList rs) (map JStr ts) i acc = Inr ns"
  using assms(1)
proof (induction ts arbitrary: i acc)
  case Nil
  then show ?case by simp
next
  case (Cons t ts)
  from Cons.prems obtain v where
    v: "map_of ifs t = Some v" "has_mac v" "subnets_ok cidr v"
    and rest: "\<forall>t \<in> set ts. \<exists>v. map_of ifs t = Some v \<and> has_mac v \<and> subnets_ok cidr v"
    by auto
  from v(2) obtain nic more mac where nic: "v = JList (JDict nic # more)"
    by (rule has_macE)
  from v(3) nic have "\<forall>x \<in> set [''ipv4'', ''ipv6'']. subnet_ok cidr (field (JDict nic) x JNull)"
    by (simp add: subnets_ok_def)
  from versions_loop_total [OF this assms(2,3), of "JStr t" acc] obtain acc' where
    acc': "versions_loop cidr dns (JList rs) (JStr t) (JDict nic) [''ipv4'', ''ipv6''] acc
             = Inr acc'"
    by blast
  have "subnets_loop cidr (JDict ifs) dns (JList rs) (map JStr (t # ts)) i acc =
        subnets_loop cidr (JDict ifs) dns (JList rs) (map JStr ts) (i + 1) acc'"
    using v(1) nic acc' by (simp add: seq_index_0 del: versions_loop.simps)
  with Cons.IH [OF rest, of "i + 1" acc'] show ?case by simp
qed

lemma net_parse_subnets_total:
  assumes "interfaces_ok md" and "sections_ok cidr md"
  shows "\<exists>ns. net_parse_subnets cidr (JDict md) = Inr ns"
proof (cases "truthy (field (JDict md) ''interfaces'' JNull) \<and>
              truthy (field (JDict md) ''dns'' JNull)")
  case False
  then show ?thesis by (auto simp: net_parse_subnets_def)
next
  case True
  then obtain ic dns where ic: "map_of md ''interfaces'' = Some ic" "truthy ic"
    and dns: "map_of md ''dns'' = Some dns" "truthy dns"
    by (auto split: option.splits)
  from assms(1) ic obtain ifs where ifs: "ic = JDict ifs"
    and mac: "list_all (\<lambda>kv. has_mac (snd kv)) ifs"
    by (cases ic) (auto simp: interfaces_ok_def)
  from assms(2) dns have d: "is_dict dns" by (auto simp: sections_ok_def)
  from assms(2) ic ifs have sub: "list_all (\<lambda>kv. subnets_ok cidr (snd kv)) ifs"
    by (simp add: sections_ok_def)
  obtain rs where rs: "field (JDict md) ''routes'' (JList []) = JList rs" "list_all is_dict rs"
  proof (cases "map_of md ''routes''")
    case None
    then show ?thesis using that [of "[]"] by simp
  next
    case (Some ar)
    with assms(2) obtain rs where "ar = JList rs" "list_all is_dict rs"
      by (cases ar) (auto simp: sections_ok_def)
    with Some show ?thesis using that [of rs] by simp
  qed
  from mac sub have "list_all (\<lambda>kv. has_mac (snd kv) \<and> subnets_ok cidr (snd kv)) ifs"
    by (simp add: list_all_iff)
  from map_of_list_all [OF this]
  have "\<forall>t \<in> set (map fst ifs). \<exists>v. map_of ifs t = Some v \<and> has_mac v \<and> subnets_ok cidr v"
    by fastforce
  from subnets_loop_total [OF this d rs(2), of 0 "[]"] obtain ns where
    "subnets_loop cidr (JDict ifs) dns (JList rs) (map JStr (map fst ifs)) 0 [] = Inr ns"
    by blast
  then have loop: "subnets_loop cidr (JDict ifs) dns (JList rs)
                     (map (\<lambda>kv. JStr (fst kv)) ifs) 0 [] = Inr ns"
    by (simp only: py_iter_keys)
  have "py_get (JDict md) ''interfaces'' JNull = Inr (JDict ifs)"
    "py_get (JDict md) ''dns'' JNull = Inr dns"
    "py_get (JDict md) ''routes'' (JList []) = Inr (JList rs)"
    using rs(1) ic ifs dns by simp_all
  with loop ic(2) ifs dns(2) have "net_parse_subnets cidr (JDict md) = Inr ns"
    by (simp add: net_parse_subnets_def del: py_get.simps)
  then show ?thesis by blast
qed

lemma ROUTES_NULL_fails:
  "net_parse_subnets ip_netmask_to_cidr (JDict ROUTES_NULL) = Inl TypeError"
  by code_simp

lemma EMPTY_DESCRIPTORS_links: "net_parse_links (JDict EMPTY_DESCRIPTORS) = Inl IndexError"
  by code_simp

lemma EMPTY_DESCRIPTORS_subnets:
  "net_parse_subnets cidr (JDict EMPTY_DESCRIPTORS) = Inl IndexError"
  by (simp add: net_parse_subnets_def EMPTY_DESCRIPTORS_def seq_index_def)

lemma NO_MAC_links: "net_parse_links (JDict NO_MAC) = Inl AttributeError"
  by code_simp

text \<open>Claim C10, as stated, fails: in the test's document with \<^verbatim>\<open>routes\<close> set to
  \<^verbatim>\<open>null\<close> every class has a first descriptor with a string \<^verbatim>\<open>mac\<close>, and subnet
  parsing raises \<^verbatim>\<open>TypeError\<close> at the loop over the routes.\<close>

theorem parsing_fails_on_null_routes:
  "interfaces_ok ROUTES_NULL \<and>
   net_parse_subnets ip_netmask_to_cidr (JDict ROUTES_NULL) = Inl TypeError"
proof
  show "interfaces_ok ROUTES_NULL" by code_simp
  show "net_parse_subnets ip_netmask_to_cidr (JDict ROUTES_NULL) = Inl TypeError"
    by (rule ROUTES_NULL_fails)
qed

text \<open>Claim C10, amended. When every interface class maps to a non-empty sequence
  whose first descriptor is an object with a string \<^verbatim>\<open>mac\<close>, link parsing returns. Subnet
  parsing returns when, in addition, \<^verbatim>\<open>dns\<close> is an object (or absent or empty),
  \<^verbatim>\<open>routes\<close> is absent or a list of objects, and each \<^verbatim>\<open>ipv4\<close> and \<^verbatim>\<open>ipv6\<close> block of a
  first descriptor is absent, empty, or an object on whose address and netmask the
  CIDR helper returns. Without the first condition parsing is partial: on an empty
  list of descriptors both derivations raise \<^verbatim>\<open>IndexError\<close>, and on a descriptor
  without \<^verbatim>\<open>mac\<close> link parsing raises \<^verbatim>\<open>AttributeError\<close>.\<close>

theorem parsing_total_on_shaped_documents:
  "(interfaces_ok md \<longrightarrow> (\<exists>ls. net_parse_links (JDict md) = Inr ls)) \<and>
   (interfaces_ok md \<and> sections_ok cidr md \<longrightarrow>
      (\<exists>ns. net_parse_subnets cidr (JDict md) = Inr ns)) \<and>
   net_parse_links (JDict EMPTY_DESCRIPTORS) = Inl IndexError \<and>
   net_parse_subnets cidr (JDict EMPTY_DESCRIPTORS) = Inl IndexError \<and>
   net_parse_links (JDict NO_MAC) = Inl AttributeError"
  using net_parse_links_total [of md] net_parse_subnets_total [of md cidr]
    EMPTY_DESCRIPTORS_links EMPTY_DESCRIPTORS_subnets [of cidr] NO_MAC_links
  by blast

lemma METADATA_shaped: "interfaces_ok METADATA" "sections_ok ip_netmask_to_cidr METADATA"
  by code_simp+

theorem parsing_total_on_shaped_documents_witness:
  "interfaces_ok METADATA \<and> sections_ok ip_netmask_to_cidr METADATA \<and>
   (\<exists>ls. net_parse_links (JDict METADATA) = Inr ls) \<and>
   (\<exists>ns. net_parse_subnets ip_netmask_to_cidr (JDict METADATA) = Inr ns)"
  using parsing_total_on_shaped_documents [of METADATA ip_netmask_to_cidr] METADATA_shaped
  by blast

section \<open>User data\<close>




lemma encode_example: "encode ''#ps1'' = [35, 112, 115, 49]"
  by code_simp

section \<open>Loading\<close>



lemma load_examples:
  "load unconfigured blank_then_secret world0 = (Inr False, world0)"
  "load example_conf connection_refused world0 =
     (Inr False, \<lparr>cache_fetches = 1, fetches = 0, sleeps = []\<rparr>)"
  "load example_conf not_json world0 =
     (Inr False, \<lparr>cache_fetches = 1, fetches = 0, sleeps = []\<rparr>)"
  "load example_conf blank_then_secret world0 =
     (Inr True, \<lparr>cache_fetches = 1, fetches = 0, sleeps = []\<rparr>)"
  by (simp_all add: load_def base_load_def get_meta_data_def unconfigured_def example_conf_def
      world0_def connection_refused_def not_json_def blank_then_secret_def)


section \<open>The admin password\<close>









text \<open>Claim C6 does not hold of the code. A \<^verbatim>\<open>RequestException\<close> without a response
  reaches the first handler, whose log line reads \<^verbatim>\<open>ex.response.status_code\<close>: the
  handler raises \<^verbatim>\<open>AttributeError\<close> and \<^verbatim>\<open>get_admin_password\<close> ends with it after one
  request, with no sleep and no retry.\<close>

theorem get_admin_password_connection_error:
  "get_admin_password example_conf connection_refused world0 =
     (Inl AttributeError, \<lparr>cache_fetches = 0, fetches = 1, sleeps = []\<rparr>)"
  by code_simp

text \<open>The same for any configuration and backend, at the first such failure; and what
  the claim says does hold of failures that carry a response.\<close>

lemma password_loop_no_response:
  assumes "password_response b (fetches w) = Inl (RequestException None)"
  shows "password_loop c b (Suc n) password w =
         (Inl AttributeError, w\<lparr>fetches := fetches w + 1\<rparr>)"
  using assms by (simp add: try_password_def)

lemma password_loop_responses:
  assumes "\<forall>k < n. \<exists>status. password_response b (fetches w + k) =
             Inl (RequestException (Some status))"
    and "0 \<le> retry_count_interval c" and "no_password password"
  shows "password_loop c b n password w =
         (Inr password,
          w\<lparr>fetches := fetches w + n,
            sleeps := sleeps w @ replicate n (retry_count_interval c)\<rparr>)"
  using assms(1,3)
proof (induction n arbitrary: w)
  case 0
  then show ?case by simp
next
  case (Suc n)
  from Suc.prems(1) have "\<exists>status. password_response b (fetches w + 0) =
             Inl (RequestException (Some status))" by blast
  then obtain status where
    first: "password_response b (fetches w) = Inl (RequestException (Some status))"
    by auto
  define w2 where
    "w2 = w\<lparr>fetches := fetches w + 1, sleeps := sleeps w @ [retry_count_interval c]\<rparr>"
  have f2: "fetches w2 = fetches w + 1" by (simp add: w2_def)
  from first assms(2) Suc.prems(2)
  have step: "password_loop c b (Suc n) password w = password_loop c b n password w2"
    by (simp add: try_password_def py_sleep_def w2_def)
  have "\<forall>k < n. \<exists>status. password_response b (fetches w2 + k) =
             Inl (RequestException (Some status))"
  proof (intro allI impI)
    fix k assume "k < n"
    then have "Suc k < Suc n" by simp
    with Suc.prems(1) have "\<exists>status. password_response b (fetches w + Suc k) =
             Inl (RequestException (Some status))" by blast
    then show "\<exists>status. password_response b (fetches w2 + k) =
             Inl (RequestException (Some status))" by (simp add: f2)
  qed
  from Suc.IH [OF this Suc.prems(2)] step show ?case
    by (simp add: w2_def replicate_append_same)
qed

lemma get_admin_password_server_error:
  "get_admin_password example_conf server_error world0 =
     (Inr None, \<lparr>cache_fetches = 0, fetches = 3, sleeps = [4, 4, 4]\<rparr>)"
  by code_simp

end
